theory Spec2Isabelle
  imports Main "HOL-Library.Multiset"
begin

section \<open>Values, errors and external collaborators\<close>

text \<open>
  A JavaScript value that may be absent: a property that was never set reads as
  \<open>undefined\<close>, a JSON \<open>null\<close> reads as \<open>null\<close>.
\<close>

datatype 'a js = Undefined | Null | Val 'a

text \<open>
  The exceptions the modelled code can meet: a JavaScript \<open>TypeError\<close> (reading a
  property of \<open>undefined\<close> or \<open>null\<close>) and the store's \<open>SqliteError\<close> (a constraint of
  the schema in \<open>scripts/init-database.js\<close>, or a statement that does not compile).
\<close>

datatype error = TypeError string | SqliteError string

text \<open>
  One answer of the reasoning collaborator (\<open>aiClients.claude.messages.create\<close> followed
  by \<open>JSON.parse\<close> where the caller parses): the call or the parse threw, or a value came back.
\<close>

datatype 'a reply = CallFailed string | Returned 'a

text \<open>
  The message of the \<open>TypeError\<close> Node raises when a property is read of \<open>undefined\<close> or
  \<open>null\<close>: \<open>Cannot read properties of undefined (reading 'slice')\<close>.
\<close>

definition apostrophe :: string where
  "apostrophe = [CHR 0x27]"

definition cannot_read :: "string \<Rightarrow> string \<Rightarrow> error" where
  "cannot_read what prop =
     TypeError (''Cannot read properties of '' @ what @ '' (reading '' @ apostrophe @ prop @
                apostrophe @ '')'')"

definition fk_error :: error where
  "fk_error = SqliteError ''FOREIGN KEY constraint failed''"

text \<open>\<open>x || d\<close> on a string: \<open>undefined\<close>, \<open>null\<close> and the empty string are falsy.\<close>

definition js_or :: "string js \<Rightarrow> string \<Rightarrow> string" where
  "js_or x d = (case x of Val s \<Rightarrow> (if s = [] then d else s) | Null \<Rightarrow> d | Undefined \<Rightarrow> d)"

text \<open>\<open>x || []\<close> on an array: every array is truthy.\<close>

definition js_or_list :: "string list js \<Rightarrow> string list" where
  "js_or_list x = (case x of Val xs \<Rightarrow> xs | Null \<Rightarrow> [] | Undefined \<Rightarrow> [])"

text \<open>
  \<open>Math.round((c / n) * 100)\<close> on two counts, \<open>n > 0\<close>, as JavaScript computes it: the
  quotient and the product are IEEE 754 doubles, each rounded to the nearest value of 53
  significant bits (ties to the even one), and \<open>Math.round\<close> gives the nearest integer
  (a half goes up). So \<open>Math.round((23 / 40) * 100)\<close> is 57, although \<open>23 / 40\<close> of 100
  is 57.5.

  A positive double is a pair \<open>(m, s)\<close> that stands for \<open>m / 2 ^ s\<close>, with
  \<open>2 ^ 52 \<le> m \<le> 2 ^ 53\<close>. \<open>double_of a b\<close> is the double nearest to \<open>a / b\<close> for
  \<open>a, b > 0\<close> and \<open>a / b < 2 ^ 52\<close>; counts of rows are far below that.
\<close>

function bit_length :: "int \<Rightarrow> nat" where
  "bit_length a = (if a \<le> 0 then 0 else Suc (bit_length (a div 2)))"
  by auto
termination
  by (relation "measure nat") auto

declare bit_length.simps [simp del]

definition round_half_even :: "int \<Rightarrow> int \<Rightarrow> int" where
  "round_half_even a b =
     (let q = a div b; r = a mod b
      in if 2 * r < b then q else if b < 2 * r then q + 1 else if even q then q else q + 1)"

definition double_of :: "int \<Rightarrow> int \<Rightarrow> int \<times> nat" where
  "double_of a b =
     (let s0 = 52 + bit_length b - bit_length a;
          s = (if b * 2 ^ 52 \<le> a * 2 ^ s0 then s0 else Suc s0)
      in (round_half_even (a * 2 ^ s) b, s))"

definition round_percent :: "nat \<Rightarrow> nat \<Rightarrow> int" where
  "round_percent c n =
     (if c = 0 then 0
      else case double_of (int c) (int n) of
             (m, s) \<Rightarrow>
               (case double_of (100 * m) (2 ^ s) of
                  (m', s') \<Rightarrow> (2 * m' + 2 ^ s') div 2 ^ Suc s'))"

text \<open>A number inside a template literal: its decimal digits.\<close>

fun show_nat :: "nat \<Rightarrow> string" where
  "show_nat n =
     (if n < 10 then [char_of (48 + n)]
      else show_nat (n div 10) @ [char_of (48 + n mod 10)])"

declare show_nat.simps [simp del]

section \<open>The store\<close>

text \<open>
  The tables of \<open>scripts/init-database.js\<close> that the two coordinators read or write, each a
  list of rows in insertion order. Status columns hold only the literals the code
  writes, so they are datatypes: tasks \<open>'pending'\<close>, \<open>'in-progress'\<close>, \<open>'completed'\<close>;
  assignments \<open>'assigned'\<close>, \<open>'in-progress'\<close>, \<open>'completed'\<close>, \<open>'partial'\<close>, \<open>'failed'\<close>;
  work bots \<open>'created'\<close>, \<open>'running'\<close>, \<open>'completed'\<close>, \<open>'failed'\<close>.
\<close>

datatype task_status = TaskPending | TaskInProgress | TaskCompleted

datatype assignment_status = AsgAssigned | AsgInProgress | AsgCompleted | AsgPartial | AsgFailed

datatype bot_status = BotCreated | BotRunning | BotCompleted | BotFailed

text \<open>
  The understanding the master coordinator works with. A reply of the collaborator may
  carry more keys; no modelled statement reads them.
\<close>

record understanding =
  primaryIntent :: "string js"
  complexity :: "string js"
  requiredExpertise :: "string list js"

record work_package =
  wp_id :: string
  wp_name :: string
  assignedTo :: string
  elements :: "string list"

record project_plan =
  overview :: string
  workPackages :: "work_package list"

record user_row =
  user_pk :: nat
  github_username :: string

record task_row =
  task_pk :: nat
  task_id :: string
  task_user_id :: nat
  task_title :: string
  task_description :: string
  task_intent :: "understanding option"
  task_timeline :: string
  task_desired_outcomes :: string
  task_available_resources :: "string list"
  task_priority :: string
  task_status :: task_status
  task_created_at :: nat
  task_updated_at :: nat
  task_completed_at :: "nat option"

record agent_row =
  agent_pk :: nat
  agent_id :: string
  agent_name :: string
  agent_specialization :: string
  agent_expertise_areas :: "string list"
  agent_status :: string
  current_load :: int
  max_capacity :: int

text \<open>
  \<open>asg_updated_at\<close> stands for a column \<open>updated_at\<close> of \<open>task_assignments\<close>. The schema
  of \<open>scripts/init-database.js\<close> does not declare it; the field is written only in a
  store whose table has that column (see \<open>asg_has_updated_at\<close> below).
\<close>

record assignment_row =
  asg_pk :: nat
  assignment_id :: string
  asg_task_id :: nat
  asg_agent_id :: nat
  assigned_elements :: "string list"
  asg_status :: assignment_status
  asg_progress :: int
  asg_assigned_at :: nat
  asg_started_at :: "nat option"
  asg_completed_at :: "nat option"
  asg_updated_at :: "nat option"

text \<open>
  The \<open>result\<close> column of a work bot: \<open>{success: true, output, timestamp}\<close>,
  \<open>{success: false, error}\<close>, or the \<open>{error}\<close> written by the handler in
  \<open>executeWorkBots\<close>.
\<close>

datatype bot_result = ResSuccess string nat | ResFailure string | ResError string

record bot_row =
  bot_pk :: nat
  bot_id :: string
  bot_assignment_id :: nat
  bot_agent_id :: nat
  bot_type :: string
  task_description :: "string option"
  bot_status :: bot_status
  bot_result :: "bot_result option"
  bot_created_at :: nat
  bot_started_at :: "nat option"
  bot_completed_at :: "nat option"

record plan_row =
  plan_pk :: nat
  plan_id :: string
  plan_task_id :: nat
  plan_data :: project_plan

record update_row =
  update_pk :: nat
  update_id :: string
  update_task_id :: nat
  source_type :: string
  source_id :: string
  message :: string
  progress_percentage :: "int option"
  update_created_at :: nat

text \<open>
  The store and its surroundings: the tables; whether \<open>task_assignments\<close> has a
  column \<open>updated_at\<close> besides the ten columns the schema declares (a statement that
  names a column the table lacks does not compile); the number of identifiers drawn
  from \<open>uuidv4\<close> so far; and the reading of \<open>CURRENT_TIMESTAMP\<close>.
\<close>

record db =
  users :: "user_row list"
  tasks :: "task_row list"
  sub_ai_agents :: "agent_row list"
  task_assignments :: "assignment_row list"
  work_bots :: "bot_row list"
  project_plans :: "plan_row list"
  progress_updates :: "update_row list"
  asg_has_updated_at :: bool
  uuid_count :: nat
  clock :: nat

text \<open>
  \<open>INTEGER PRIMARY KEY AUTOINCREMENT\<close>: one more than the largest key of the table. No
  statement of the repository deletes a row, so that is the largest key ever used.
\<close>

definition next_pk :: "nat list \<Rightarrow> nat" where
  "next_pk ks = Suc (fold max ks 0)"

text \<open>
  \<open>uuidv4()\<close>: the \<open>n\<close>-th identifier of a run is \<open>U n\<close>, for a source \<open>U\<close> that every
  operation takes as a parameter. Collisions with stored identifiers (which would fire
  a \<open>UNIQUE\<close> constraint) are not modelled.
\<close>

definition draw_uuid :: "db \<Rightarrow> db" where
  "draw_uuid d = d\<lparr>uuid_count := Suc (uuid_count d)\<rparr>"

text \<open>\<open>SELECT ... FROM sub_ai_agents WHERE agent_id = ?\<close> with \<open>get\<close>: the first such row.\<close>

definition get_agent :: "string \<Rightarrow> db \<Rightarrow> agent_row option" where
  "get_agent name d = find (\<lambda>s. agent_id s = name) (sub_ai_agents d)"

text \<open>\<open>UPDATE sub_ai_agents SET current_load = current_load + delta WHERE id = ?\<close>.\<close>

definition adjust_load :: "nat \<Rightarrow> int \<Rightarrow> db \<Rightarrow> db" where
  "adjust_load pk delta d =
     d\<lparr>sub_ai_agents :=
         map (\<lambda>s. if agent_pk s = pk then s\<lparr>current_load := current_load s + delta\<rparr> else s)
             (sub_ai_agents d)\<rparr>"

text \<open>\<open>UPDATE tasks SET ... WHERE id = ?\<close>, \<open>UPDATE task_assignments SET ... WHERE id = ?\<close>.\<close>

definition update_task :: "nat \<Rightarrow> (task_row \<Rightarrow> task_row) \<Rightarrow> db \<Rightarrow> db" where
  "update_task pk f d =
     d\<lparr>tasks := map (\<lambda>row. if task_pk row = pk then f row else row) (tasks d)\<rparr>"

definition update_assignment :: "nat \<Rightarrow> (assignment_row \<Rightarrow> assignment_row) \<Rightarrow> db \<Rightarrow> db" where
  "update_assignment pk f d =
     d\<lparr>task_assignments :=
         map (\<lambda>row. if asg_pk row = pk then f row else row) (task_assignments d)\<rparr>"

section \<open>The master coordinator (server/atlantis-ai.js)\<close>

text \<open>
  \<open>userId\<close> as a caller passes it: a number (the route \<open>POST /api/tasks\<close> passes the key
  of the \<open>users\<close> row) or a string. The column \<open>tasks.user_id\<close> has \<open>INTEGER\<close> affinity:
  a text of decimal digits is stored as that integer, any other text here stays a text
  and so is the key of no \<open>users\<close> row. (Texts with a sign, a fraction, an exponent or
  blanks around the digits, which the engine may convert as well, are not told apart
  from other texts.)
\<close>

datatype user_ref = RowKey nat | UserName string

definition digit_value :: "char \<Rightarrow> nat" where
  "digit_value c = of_char c - 48"

definition is_digit :: "char \<Rightarrow> bool" where
  "is_digit c = (48 \<le> (of_char c :: nat) \<and> (of_char c :: nat) \<le> 57)"

definition stored_key :: "user_ref \<Rightarrow> nat option" where
  "stored_key u =
     (case u of
        RowKey k \<Rightarrow> Some k
      | UserName s \<Rightarrow>
          (if s \<noteq> [] \<and> list_all is_digit s
           then Some (fold (\<lambda>c k. 10 * k + digit_value c) s 0) else None))"

record task_input =
  in_userId :: "user_ref js"
  in_title :: "string js"
  in_description :: "string js"
  in_timeline :: "string js"
  in_desiredOutcomes :: "string js"
  in_availableResources :: "string list js"
  in_priority :: "string js"

text \<open>The object \<open>createTask\<close> returns: \<open>{id, task_id, ...input}\<close>.\<close>

record task =
  tk_id :: nat
  tk_task_id :: string
  tk_input :: task_input

text \<open>
  The row \<open>createTask\<close> inserts: the bound parameters, and the column defaults
  (\<open>status 'pending'\<close>, the timestamps) for the rest.
\<close>

definition new_task :: "(nat \<Rightarrow> string) \<Rightarrow> task_input \<Rightarrow> nat \<Rightarrow> string \<Rightarrow> db \<Rightarrow> task_row" where
  "new_task U input uid ttl d =
     \<lparr>task_pk = next_pk (map task_pk (tasks d)), task_id = ''task-'' @ U (uuid_count d),
      task_user_id = uid, task_title = ttl,
      task_description = js_or (in_description input) [],
      task_intent = None,
      task_timeline = js_or (in_timeline input) [],
      task_desired_outcomes = js_or (in_desiredOutcomes input) [],
      task_available_resources = js_or_list (in_availableResources input),
      task_priority = js_or (in_priority input) ''normal'',
      task_status = TaskPending, task_created_at = clock d, task_updated_at = clock d,
      task_completed_at = None\<rparr>"

text \<open>
  \<open>createTask\<close>: one \<open>INSERT INTO tasks\<close>. better-sqlite3 binds \<open>undefined\<close> like
  \<open>null\<close>, as \<open>NULL\<close>; \<open>user_id\<close> and \<open>title\<close> are \<open>NOT NULL\<close>, checked in the order of
  the columns; \<open>user_id\<close> references \<open>users(id)\<close> and foreign keys are on. The function
  returns \<open>{id: lastInsertRowid, task_id, ...input}\<close>.
\<close>

definition createTask :: "(nat \<Rightarrow> string) \<Rightarrow> task_input \<Rightarrow> db \<Rightarrow> (error + task) \<times> db" where
  "createTask U input d =
     (let taskId = ''task-'' @ U (uuid_count d);
          d1 = draw_uuid d;
          no_user = (Inl (SqliteError ''NOT NULL constraint failed: tasks.user_id''), d1);
          no_title = (Inl (SqliteError ''NOT NULL constraint failed: tasks.title''), d1)
      in case in_userId input of
           Undefined \<Rightarrow> no_user
         | Null \<Rightarrow> no_user
         | Val u \<Rightarrow>
             (case in_title input of
                Undefined \<Rightarrow> no_title
              | Null \<Rightarrow> no_title
              | Val ttl \<Rightarrow>
                  (case stored_key u of
                     None \<Rightarrow> (Inl fk_error, d1)
                   | Some uid \<Rightarrow>
                       if uid \<in> set (map user_pk (users d1)) then
                         (let row = new_task U input uid ttl d
                          in (Inr \<lparr>tk_id = task_pk row, tk_task_id = taskId, tk_input = input\<rparr>,
                              d1\<lparr>tasks := tasks d1 @ [row]\<rparr>))
                       else (Inl fk_error, d1))))"

text \<open>
  \<open>understandIntent\<close>: on a reply, the understanding is stored in \<open>tasks.intent\<close> and
  returned; when the call or the parse throws, the handler returns the basic
  understanding.
\<close>

definition understandIntent :: "understanding reply \<Rightarrow> task \<Rightarrow> db \<Rightarrow> understanding \<times> db" where
  "understandIntent r t d =
     (case r of
        Returned u \<Rightarrow>
          (u, update_task (tk_id t) (\<lambda>row. row\<lparr>task_intent := Some u\<rparr>) d)
      | CallFailed m \<Rightarrow>
          (\<lparr>primaryIntent = in_description (tk_input t), complexity = Val ''Moderate'',
            requiredExpertise = Val [''General'']\<rparr>, d))"

definition basic_plan :: project_plan where
  "basic_plan =
     \<lparr>overview = ''Auto-generated basic plan'',
      workPackages = [\<lparr>wp_id = ''wp-1'', wp_name = ''Complete task'',
                       assignedTo = ''sub-ai-code'', elements = [''Main implementation'']\<rparr>]\<rparr>"

text \<open>
  \<open>createProjectPlan\<close>: on a reply, the plan is saved in \<open>project_plans\<close> and returned. The
  insert stands inside the same \<open>try\<close>, so a foreign-key failure also ends in the basic
  plan.
\<close>

definition createProjectPlan ::
  "(nat \<Rightarrow> string) \<Rightarrow> project_plan reply \<Rightarrow> task \<Rightarrow> understanding \<Rightarrow> db \<Rightarrow> project_plan \<times> db" where
  "createProjectPlan U r t u d =
     (case r of
        Returned plan \<Rightarrow>
          (let planId = ''plan-'' @ U (uuid_count d);
               d1 = draw_uuid d
           in if tk_id t \<in> set (map task_pk (tasks d1)) then
                (plan, d1\<lparr>project_plans := project_plans d1 @
                   [\<lparr>plan_pk = next_pk (map plan_pk (project_plans d1)), plan_id = planId,
                     plan_task_id = tk_id t, plan_data = plan\<rparr>]\<rparr>)
              else (basic_plan, d1))
      | CallFailed m \<Rightarrow> (basic_plan, d))"

text \<open>The row \<open>addProgressUpdate\<close> inserts.\<close>

definition new_update ::
  "(nat \<Rightarrow> string) \<Rightarrow> nat \<Rightarrow> string \<Rightarrow> string \<Rightarrow> string \<Rightarrow> int option \<Rightarrow> db \<Rightarrow> update_row" where
  "new_update U taskId sourceType sourceId msg progress d =
     \<lparr>update_pk = next_pk (map update_pk (progress_updates d)),
      update_id = ''update-'' @ U (uuid_count d), update_task_id = taskId,
      source_type = sourceType, source_id = sourceId, message = msg,
      progress_percentage = progress, update_created_at = clock d\<rparr>"

text \<open>\<open>addProgressUpdate\<close>: one insert; \<open>task_id\<close> references \<open>tasks(id)\<close>.\<close>

definition addProgressUpdate ::
  "(nat \<Rightarrow> string) \<Rightarrow> nat \<Rightarrow> string \<Rightarrow> string \<Rightarrow> string \<Rightarrow> int option \<Rightarrow> db \<Rightarrow> (error + unit) \<times> db" where
  "addProgressUpdate U taskId sourceType sourceId msg progress d =
     (let row = new_update U taskId sourceType sourceId msg progress d;
          d1 = draw_uuid d
      in if taskId \<in> set (map task_pk (tasks d1)) then
           (Inr (), d1\<lparr>progress_updates := progress_updates d1 @ [row]\<rparr>)
         else (Inl fk_error, d1))"

text \<open>An entry of the list \<open>delegateToSubAIs\<close> returns.\<close>

record assignment_info =
  ai_assignmentId :: string
  ai_agentName :: string
  ai_workPackage :: string
  ai_elements :: "string list"

definition quote :: string where
  "quote = [CHR 0x22]"

text \<open>
  The loop of \<open>delegateToSubAIs\<close> over \<open>plan.workPackages\<close>. A package whose agent is not
  found is skipped (\<open>continue\<close>); an exception leaves the loop with the rows written so
  far.
\<close>

definition new_assignment ::
  "(nat \<Rightarrow> string) \<Rightarrow> task \<Rightarrow> agent_row \<Rightarrow> work_package \<Rightarrow> db \<Rightarrow> assignment_row" where
  "new_assignment U t agent wp d =
     \<lparr>asg_pk = next_pk (map asg_pk (task_assignments d)),
      assignment_id = ''assign-'' @ U (uuid_count d), asg_task_id = tk_id t,
      asg_agent_id = agent_pk agent, assigned_elements = elements wp,
      asg_status = AsgAssigned, asg_progress = 0, asg_assigned_at = clock d,
      asg_started_at = None, asg_completed_at = None, asg_updated_at = None\<rparr>"

definition assigned_message :: "work_package \<Rightarrow> agent_row \<Rightarrow> string" where
  "assigned_message wp agent =
     ''Assigned '' @ quote @ wp_name wp @ quote @ '' to '' @ agent_name agent"

definition info_of :: "(nat \<Rightarrow> string) \<Rightarrow> agent_row \<Rightarrow> work_package \<Rightarrow> db \<Rightarrow> assignment_info" where
  "info_of U agent wp d =
     \<lparr>ai_assignmentId = ''assign-'' @ U (uuid_count d), ai_agentName = agent_name agent,
      ai_workPackage = wp_name wp, ai_elements = elements wp\<rparr>"

fun delegate_packages ::
  "(nat \<Rightarrow> string) \<Rightarrow> task \<Rightarrow> work_package list \<Rightarrow> db \<Rightarrow> (error + assignment_info list) \<times> db" where
  "delegate_packages U t [] d = (Inr [], d)"
| "delegate_packages U t (wp # wps) d =
     (case get_agent (assignedTo wp) d of
        None \<Rightarrow> delegate_packages U t wps d
      | Some agent \<Rightarrow>
          (let row = new_assignment U t agent wp d;
               info = info_of U agent wp d;
               d1 = draw_uuid d
           in if tk_id t \<in> set (map task_pk (tasks d1)) then
                (let d2 = d1\<lparr>task_assignments := task_assignments d1 @ [row]\<rparr>;
                     d3 = adjust_load (agent_pk agent) 1 d2
                 in case addProgressUpdate U (tk_id t) ''atlantis'' ''ATLANTIS''
                           (assigned_message wp agent) (Some 10) d3 of
                      (Inl e, d4) \<Rightarrow> (Inl e, d4)
                    | (Inr _, d4) \<Rightarrow>
                        (case delegate_packages U t wps d4 of
                           (Inl e, d5) \<Rightarrow> (Inl e, d5)
                         | (Inr infos, d5) \<Rightarrow> (Inr (info # infos), d5)))
              else (Inl fk_error, d1)))"

definition delegateToSubAIs ::
  "(nat \<Rightarrow> string) \<Rightarrow> task \<Rightarrow> project_plan \<Rightarrow> db \<Rightarrow> (error + assignment_info list) \<times> db" where
  "delegateToSubAIs U t plan d =
     (case delegate_packages U t (workPackages plan) d of
        (Inl e, d1) \<Rightarrow> (Inl e, d1)
      | (Inr assignments, d1) \<Rightarrow>
          (Inr assignments,
           update_task (tk_id t)
             (\<lambda>row. row\<lparr>task_status := TaskInProgress, task_updated_at := clock d1\<rparr>) d1))"

text \<open>
  The join of \<open>monitorProgress\<close> and \<open>getTaskStatus\<close>: the assignments of a task, each with
  the agent row its \<open>agent_id\<close> names.
\<close>

definition assignments_of :: "nat \<Rightarrow> db \<Rightarrow> (assignment_row \<times> agent_row) list" where
  "assignments_of taskId d =
     [(a, s). a \<leftarrow> task_assignments d, s \<leftarrow> sub_ai_agents d,
              asg_agent_id a = agent_pk s, asg_task_id a = taskId]"

definition finalized :: "nat \<Rightarrow> task_row \<Rightarrow> task_row" where
  "finalized now row =
     row\<lparr>task_status := TaskCompleted, task_completed_at := Some now, task_updated_at := now\<rparr>"

definition finalizeTask :: "(nat \<Rightarrow> string) \<Rightarrow> nat \<Rightarrow> db \<Rightarrow> (error + unit) \<times> db" where
  "finalizeTask U taskId d =
     addProgressUpdate U taskId ''atlantis'' ''ATLANTIS''
       ''Task completed successfully! All work packages finished.'' (Some 100)
       (update_task taskId (finalized (clock d)) d)"

record progress_report =
  pr_completed :: nat
  pr_total :: nat
  pr_progress :: int

definition completed_of :: "nat \<Rightarrow> db \<Rightarrow> nat" where
  "completed_of taskId d =
     length (filter (\<lambda>(a, s). asg_status a = AsgCompleted) (assignments_of taskId d))"

definition total_of :: "nat \<Rightarrow> db \<Rightarrow> nat" where
  "total_of taskId d = length (assignments_of taskId d)"

definition progress_message :: "nat \<Rightarrow> nat \<Rightarrow> string" where
  "progress_message c n =
     ''Overall progress: '' @ show_nat c @ ''/'' @ show_nat n @ '' assignments completed''"

definition monitorProgress :: "(nat \<Rightarrow> string) \<Rightarrow> nat \<Rightarrow> db \<Rightarrow> (error + progress_report) \<times> db" where
  "monitorProgress U taskId d =
     (let completed = completed_of taskId d;
          total = total_of taskId d;
          progress = (if total > 0 then round_percent completed total else 0);
          report = \<lparr>pr_completed = completed, pr_total = total, pr_progress = progress\<rparr>
      in case addProgressUpdate U taskId ''atlantis'' ''ATLANTIS''
                (progress_message completed total) (Some progress) d of
           (Inl e, d1) \<Rightarrow> (Inl e, d1)
         | (Inr _, d1) \<Rightarrow>
             if completed = total \<and> total > 0 then
               (case finalizeTask U taskId d1 of
                  (Inl e, d2) \<Rightarrow> (Inl e, d2)
                | (Inr _, d2) \<Rightarrow> (Inr report, d2))
             else (Inr report, d1))"

text \<open>
  The value \<open>receiveTask\<close> resolves to. It never rejects: every exception of the awaited
  steps is caught and returned as \<open>{success: false, error}\<close>.
\<close>

record receipt =
  rc_taskId :: string
  rc_understanding :: understanding
  rc_projectPlan :: project_plan
  rc_assignments :: "assignment_info list"

datatype receive_result = RtSuccess receipt | RtFailure error

text \<open>
  \<open>receiveTask\<close>. \<open>monitorProgress\<close> is called without \<open>await\<close>: its statements run before
  \<open>receiveTask\<close> returns, its outcome is not looked at.
\<close>

definition receiveTask ::
  "(nat \<Rightarrow> string) \<Rightarrow> task_input \<Rightarrow> understanding reply \<Rightarrow> project_plan reply \<Rightarrow> db \<Rightarrow> receive_result \<times> db" where
  "receiveTask U input ur pr d =
     (case createTask U input d of
        (Inl e, d1) \<Rightarrow> (RtFailure e, d1)
      | (Inr t, d1) \<Rightarrow>
          (case understandIntent ur t d1 of
             (u, d2) \<Rightarrow>
               (case createProjectPlan U pr t u d2 of
                  (plan, d3) \<Rightarrow>
                    (case delegateToSubAIs U t plan d3 of
                       (Inl e, d4) \<Rightarrow> (RtFailure e, d4)
                     | (Inr assignments, d4) \<Rightarrow>
                         (RtSuccess \<lparr>rc_taskId = tk_task_id t, rc_understanding = u,
                                     rc_projectPlan = plan, rc_assignments = assignments\<rparr>,
                          snd (monitorProgress U (tk_id t) d4))))))"





section \<open>The agent coordinator (server/sub-ai-agents.js)\<close>

text \<open>The fields of a \<open>SubAIAgent\<close> object; \<open>this.maxWorkBots\<close> is the constant 5.\<close>

record sub_ai_agent =
  sa_agentId :: string
  sa_name :: string
  sa_specialization :: string
  sa_expertiseAreas :: "string list"

definition maxWorkBots :: nat where
  "maxWorkBots = 5"

text \<open>
  The decomposition an agent works from: the parsed reply of the collaborator, or the
  fallback. A reply is any JSON value, so \<open>tasks\<close> and the fields of a task may be
  missing or \<open>null\<close>.
\<close>

record task_spec =
  ts_description :: "string js"
  ts_botType :: "string js"
  ts_expectedOutput :: "string js"

record analysis =
  an_tasks :: "task_spec list js"
  an_strategy :: "string js"

text \<open>An entry of the array \<open>createWorkBots\<close> returns.\<close>

record work_bot =
  wb_botId :: string
  wb_type :: "string js"
  wb_description :: "string js"
  wb_expectedOutput :: "string js"

definition error_message :: "error \<Rightarrow> string" where
  "error_message e = (case e of TypeError m \<Rightarrow> m | SqliteError m \<Rightarrow> m)"

text \<open>
  \<open>updateAssignmentStatus\<close>. Its first statement prepares
  \<open>UPDATE task_assignments SET status = ?, updated_at = CURRENT_TIMESTAMP WHERE id = ?\<close>;
  \<open>prepare\<close> compiles the statement, so it throws when the table has no column
  \<open>updated_at\<close>, before anything is written.
\<close>

definition updateAssignmentStatus :: "nat \<Rightarrow> assignment_status \<Rightarrow> db \<Rightarrow> (error + unit) \<times> db" where
  "updateAssignmentStatus assignmentId status d =
     (if \<not> asg_has_updated_at d then (Inl (SqliteError ''no such column: updated_at''), d)
      else
        (let d1 = (if status = AsgInProgress
                   then update_assignment assignmentId
                          (\<lambda>r. r\<lparr>asg_started_at := Some (clock d)\<rparr>) d
                   else d)
         in (Inr (),
             update_assignment assignmentId
               (\<lambda>r. r\<lparr>asg_status := status, asg_updated_at := Some (clock d1)\<rparr>) d1)))"

text \<open>
  \<open>analyzeAssignment\<close>: the reply of the collaborator, or, when the call or the parse
  throws, one task of type \<open>'general'\<close> per assigned element.
\<close>

definition analyzeAssignment :: "analysis reply \<Rightarrow> assignment_row \<Rightarrow> analysis" where
  "analyzeAssignment r a =
     (case r of
        Returned an \<Rightarrow> an
      | CallFailed m \<Rightarrow>
          \<lparr>an_tasks = Val (map (\<lambda>e. \<lparr>ts_description = Val e, ts_botType = Val ''general'',
                                      ts_expectedOutput = Val (''Complete: '' @ e)\<rparr>)
                                (assigned_elements a)),
           an_strategy = Val ''Sequential execution''\<rparr>)"

text \<open>
  The insert of \<open>createWorkBots\<close>: \<open>bot_type\<close> is \<open>NOT NULL\<close>, \<open>task_description\<close> may be
  \<open>NULL\<close> (\<open>undefined\<close> is bound as \<open>NULL\<close>), \<open>assignment_id\<close> and \<open>agent_id\<close> are
  foreign keys.
\<close>

definition insert_work_bot ::
  "string \<Rightarrow> nat \<Rightarrow> nat \<Rightarrow> string js \<Rightarrow> string js \<Rightarrow> db \<Rightarrow> error + db" where
  "insert_work_bot botId assignmentId agentPk botType descr d =
     (case botType of
        Undefined \<Rightarrow> Inl (SqliteError ''NOT NULL constraint failed: work_bots.bot_type'')
      | Null \<Rightarrow> Inl (SqliteError ''NOT NULL constraint failed: work_bots.bot_type'')
      | Val ty \<Rightarrow>
          (if assignmentId \<in> set (map asg_pk (task_assignments d)) \<and>
              agentPk \<in> set (map agent_pk (sub_ai_agents d))
           then Inr (d\<lparr>work_bots := work_bots d @
                       [\<lparr>bot_pk = next_pk (map bot_pk (work_bots d)), bot_id = botId,
                         bot_assignment_id = assignmentId, bot_agent_id = agentPk,
                         bot_type = ty,
                         task_description = (case descr of Val s \<Rightarrow> Some s | Null \<Rightarrow> None
                                             | Undefined \<Rightarrow> None),
                         bot_status = BotCreated, bot_result = None,
                         bot_created_at = clock d, bot_started_at = None,
                         bot_completed_at = None\<rparr>]\<rparr>)
           else Inl fk_error))"

text \<open>The loop of \<open>createWorkBots\<close> over the (already truncated) task list.\<close>

fun create_bots ::
  "(nat \<Rightarrow> string) \<Rightarrow> sub_ai_agent \<Rightarrow> assignment_row \<Rightarrow> task_spec list \<Rightarrow> db \<Rightarrow> (error + work_bot list) \<times> db" where
  "create_bots U ag a [] d = (Inr [], d)"
| "create_bots U ag a (t # ts) d =
     (let botId = ''bot-'' @ U (uuid_count d);
          d1 = draw_uuid d
      in case get_agent (sa_agentId ag) d1 of
           None \<Rightarrow> (Inl (cannot_read ''undefined'' ''id''), d1)
         | Some agentRecord \<Rightarrow>
             (case insert_work_bot botId (asg_pk a) (agent_pk agentRecord)
                     (ts_botType t) (ts_description t) d1 of
                Inl e \<Rightarrow> (Inl e, d1)
              | Inr d2 \<Rightarrow>
                  (case create_bots U ag a ts d2 of
                     (Inl e, d3) \<Rightarrow> (Inl e, d3)
                   | (Inr bots, d3) \<Rightarrow>
                       (Inr (\<lparr>wb_botId = botId, wb_type = ts_botType t,
                              wb_description = ts_description t,
                              wb_expectedOutput = ts_expectedOutput t\<rparr> # bots), d3))))"

text \<open>\<open>createWorkBots\<close>: \<open>analysis.tasks.slice(0, this.maxWorkBots)\<close>, then the loop.\<close>

definition createWorkBots ::
  "(nat \<Rightarrow> string) \<Rightarrow> sub_ai_agent \<Rightarrow> assignment_row \<Rightarrow> analysis \<Rightarrow> db \<Rightarrow> (error + work_bot list) \<times> db" where
  "createWorkBots U ag a an d =
     (case an_tasks an of
        Val ts \<Rightarrow> create_bots U ag a (take maxWorkBots ts) d
      | Null \<Rightarrow> (Inl (cannot_read ''null'' ''slice''), d)
      | Undefined \<Rightarrow> (Inl (cannot_read ''undefined'' ''slice''), d))"

text \<open>
  \<open>executeWorkBot\<close> never throws: a failed call of the collaborator is caught and
  returned as \<open>{success: false, error}\<close>.
\<close>

definition executeWorkBot :: "sub_ai_agent \<Rightarrow> work_bot \<Rightarrow> string reply \<Rightarrow> nat \<Rightarrow> bot_result" where
  "executeWorkBot ag b r now =
     (case r of Returned out \<Rightarrow> ResSuccess out now | CallFailed m \<Rightarrow> ResFailure m)"

text \<open>\<open>UPDATE work_bots SET ... WHERE bot_id = ?\<close>.\<close>

definition update_bot :: "string \<Rightarrow> (bot_row \<Rightarrow> bot_row) \<Rightarrow> db \<Rightarrow> db" where
  "update_bot botId f d =
     d\<lparr>work_bots := map (\<lambda>r. if bot_id r = botId then f r else r) (work_bots d)\<rparr>"

text \<open>
  The agent's own \<open>addProgressUpdate\<close>: the same insert with source type \<open>'sub-ai'\<close> and no
  percentage.
\<close>

definition agent_addProgressUpdate ::
  "(nat \<Rightarrow> string) \<Rightarrow> nat \<Rightarrow> string \<Rightarrow> string \<Rightarrow> db \<Rightarrow> (error + unit) \<times> db" where
  "agent_addProgressUpdate U taskId sourceId msg d =
     addProgressUpdate U taskId ''sub-ai'' sourceId msg None d"

text \<open>
  The loop of \<open>executeWorkBots\<close>; \<open>rs i\<close> is the collaborator's answer for the \<open>i\<close>-th bot.
  After \<open>executeWorkBot\<close> returns, the bot is marked \<open>'completed'\<close> whatever the result
  says; the handler marks it \<open>'failed'\<close> only when a statement of the loop body throws
  (\<open>bot.description.substring\<close> on \<open>null\<close>, or the progress insert).
\<close>

fun execute_bots ::
  "(nat \<Rightarrow> string) \<Rightarrow> sub_ai_agent \<Rightarrow> assignment_row \<Rightarrow> (nat \<Rightarrow> string reply) \<Rightarrow> nat \<Rightarrow> work_bot list \<Rightarrow> db \<Rightarrow> db" where
  "execute_bots U ag a rs i [] d = d"
| "execute_bots U ag a rs i (b # bs) d =
     (let d1 = update_bot (wb_botId b)
                 (\<lambda>r. r\<lparr>bot_status := BotRunning, bot_started_at := Some (clock d)\<rparr>) d;
          result = executeWorkBot ag b (rs i) (clock d1);
          d2 = update_bot (wb_botId b)
                 (\<lambda>r. r\<lparr>bot_status := BotCompleted, bot_result := Some result,
                        bot_completed_at := Some (clock d1)\<rparr>) d1;
          attempt = (case wb_description b of
                       Val s \<Rightarrow>
                         agent_addProgressUpdate U (asg_task_id a) (wb_botId b)
                           (''Work bot completed: '' @ take 50 s @ ''...'') d2
                     | Null \<Rightarrow>
                         (Inl (cannot_read ''null'' ''substring''), d2)
                     | Undefined \<Rightarrow> (Inl (cannot_read ''undefined'' ''substring''), d2));
          d4 = (case attempt of
                  (Inr _, d3) \<Rightarrow> d3
                | (Inl e, d3) \<Rightarrow>
                    update_bot (wb_botId b)
                      (\<lambda>r. r\<lparr>bot_status := BotFailed,
                             bot_result := Some (ResError (error_message e))\<rparr>) d3)
      in execute_bots U ag a rs (Suc i) bs d4)"

text \<open>
  \<open>executeWorkBots\<close>: the loop, and after it the statement
  \<open>SELECT COUNT(*) as count FROM work_bots WHERE assignment_id = ? AND status = "completed"\<close>.
  better-sqlite3 builds SQLite without double-quoted string literals
  (\<open>SQLITE_DQS=0\<close>), so \<open>"completed"\<close> is read as the name of a column, \<open>work_bots\<close> has
  none of that name, and \<open>prepare\<close> throws. The statements behind it,
  \<open>Math.round((completedBots.count / workBots.length) * 100)\<close> and the update of the
  assignment's \<open>progress\<close>, are never reached, and the method has no other outcome than
  this exception. (Engines before SQLite 3.41 word the message \<open>no such column: completed\<close>.)
\<close>

definition count_query_error :: error where
  "count_query_error =
     SqliteError (''no such column: '' @ quote @ ''completed'' @ quote @
                  '' - should this be a string literal in single-quotes?'')"

definition executeWorkBots ::
  "(nat \<Rightarrow> string) \<Rightarrow> sub_ai_agent \<Rightarrow> work_bot list \<Rightarrow> assignment_row \<Rightarrow> (nat \<Rightarrow> string reply) \<Rightarrow> db \<Rightarrow> (error + unit) \<times> db" where
  "executeWorkBots U ag workBots a rs d =
     (Inl count_query_error, execute_bots U ag a rs 0 workBots d)"

text \<open>
  \<open>reportToAtlantis\<close>: the terminal status from the bot rows of the assignment, the
  decrement of the agent's load, and the summary update. Its statements compile; it is
  the only place where a load is decremented.
\<close>

definition reportToAtlantis ::
  "(nat \<Rightarrow> string) \<Rightarrow> sub_ai_agent \<Rightarrow> assignment_row \<Rightarrow> db \<Rightarrow> (error + unit) \<times> db" where
  "reportToAtlantis U ag a d =
     (let results = filter (\<lambda>r. bot_assignment_id r = asg_pk a) (work_bots d);
          completed = length (filter (\<lambda>r. bot_status r = BotCompleted) results);
          total = length results;
          status = (if completed = total then AsgCompleted else AsgPartial);
          d1 = update_assignment (asg_pk a)
                 (\<lambda>r. r\<lparr>asg_status := status, asg_completed_at := Some (clock d)\<rparr>) d
      in case get_agent (sa_agentId ag) d1 of
           None \<Rightarrow> (Inl (cannot_read ''undefined'' ''id''), d1)
         | Some agentRecord \<Rightarrow>
             agent_addProgressUpdate U (asg_task_id a) (sa_agentId ag)
               (sa_name ag @ '' completed assignment: '' @ show_nat completed @ ''/'' @
                show_nat total @ '' work bots successful'')
               (adjust_load (agent_pk agentRecord) (- 1) d1))"

text \<open>
  The \<open>try\<close> block of \<open>processAssignment\<close>; its value is \<open>workBots.length\<close>. An
  exception of any of its steps leaves the block.
\<close>

definition process_steps ::
  "(nat \<Rightarrow> string) \<Rightarrow> sub_ai_agent \<Rightarrow> assignment_row \<Rightarrow> analysis reply \<Rightarrow> (nat \<Rightarrow> string reply) \<Rightarrow> db \<Rightarrow> (error + nat) \<times> db" where
  "process_steps U ag a ar rs d =
     (case updateAssignmentStatus (asg_pk a) AsgInProgress d of
        (Inl e, d1) \<Rightarrow> (Inl e, d1)
      | (Inr _, d1) \<Rightarrow>
          (case createWorkBots U ag a (analyzeAssignment ar a) d1 of
             (Inl e, d2) \<Rightarrow> (Inl e, d2)
           | (Inr workBots, d2) \<Rightarrow>
               (case executeWorkBots U ag workBots a rs d2 of
                  (Inl e, d3) \<Rightarrow> (Inl e, d3)
                | (Inr _, d3) \<Rightarrow>
                    (case reportToAtlantis U ag a d3 of
                       (Inl e, d4) \<Rightarrow> (Inl e, d4)
                     | (Inr _, d4) \<Rightarrow> (Inr (length workBots), d4)))))"

text \<open>
  What \<open>processAssignment\<close> resolves to: \<open>{success: true, workBots, message}\<close> or
  \<open>{success: false, error}\<close>. The handler itself calls \<open>updateAssignmentStatus\<close>; when
  that throws, the promise rejects (\<open>Inl\<close>).
\<close>

datatype process_result = ProcSuccess nat | ProcFailure error

definition processAssignment ::
  "(nat \<Rightarrow> string) \<Rightarrow> sub_ai_agent \<Rightarrow> assignment_row \<Rightarrow> analysis reply \<Rightarrow> (nat \<Rightarrow> string reply) \<Rightarrow> db \<Rightarrow> (error + process_result) \<times> db" where
  "processAssignment U ag a ar rs d =
     (case process_steps U ag a ar rs d of
        (Inr n, d1) \<Rightarrow> (Inr (ProcSuccess n), d1)
      | (Inl e, d1) \<Rightarrow>
          (case updateAssignmentStatus (asg_pk a) AsgFailed d1 of
             (Inl e', d2) \<Rightarrow> (Inl e', d2)
           | (Inr _, d2) \<Rightarrow> (Inr (ProcFailure e), d2)))"

section \<open>Schema and seed data (scripts/init-database.js)\<close>

text \<open>
  \<open>initializeDatabase\<close> on a new file: empty tables; \<open>task_assignments\<close> has the columns
  \<open>id, assignment_id, task_id, agent_id, assigned_elements, status, progress,
  assigned_at, started_at, completed_at\<close> and no \<open>updated_at\<close>.
\<close>

definition initializeDatabase :: "nat \<Rightarrow> db" where
  "initializeDatabase now =
     \<lparr>users = [], tasks = [], sub_ai_agents = [], task_assignments = [], work_bots = [],
      project_plans = [], progress_updates = [], asg_has_updated_at = False,
      uuid_count = 0, clock = now\<rparr>"

definition subAIs :: "(string \<times> string \<times> string \<times> string list) list" where
  "subAIs =
     [(''sub-ai-code'', ''Code Architect'', ''Code Development'',
         [''JavaScript'', ''Python'', ''Java'', ''TypeScript'', ''Go'', ''Rust'', ''C#'']),
      (''sub-ai-architecture'', ''System Architect'', ''Software Architecture'',
         [''Microservices'', ''Monoliths'', ''Event-Driven'', ''Serverless'', ''Design Patterns'']),
      (''sub-ai-testing'', ''Quality Assurance'', ''Testing & QA'',
         [''Unit Testing'', ''Integration Testing'', ''E2E Testing'', ''Performance Testing'']),
      (''sub-ai-security'', ''Security Guardian'', ''Security & Compliance'',
         [''Vulnerability Assessment'', ''Penetration Testing'', ''Security Audits'', ''Compliance'']),
      (''sub-ai-docs'', ''Documentation Expert'', ''Documentation'',
         [''API Docs'', ''User Guides'', ''Technical Writing'', ''Architecture Diagrams'']),
      (''sub-ai-devops'', ''DevOps Engineer'', ''DevOps & CI/CD'',
         [''Docker'', ''Kubernetes'', ''GitHub Actions'', ''Jenkins'', ''Terraform'']),
      (''sub-ai-datascience'', ''Data Scientist'', ''Data Science & ML'',
         [''Machine Learning'', ''Data Analysis'', ''Neural Networks'', ''NLP'', ''Computer Vision'']),
      (''sub-ai-uiux'', ''UI/UX Designer'', ''User Interface & Experience'',
         [''React'', ''Vue'', ''Angular'', ''Design Systems'', ''Accessibility'']),
      (''sub-ai-backend'', ''Backend Specialist'', ''Backend Development'',
         [''REST APIs'', ''GraphQL'', ''Databases'', ''Caching'', ''Message Queues'']),
      (''sub-ai-frontend'', ''Frontend Specialist'', ''Frontend Development'',
         [''HTML/CSS'', ''JavaScript'', ''Responsive Design'', ''PWAs'', ''Performance'']),
      (''sub-ai-database'', ''Database Expert'', ''Database Design & Optimization'',
         [''SQL'', ''NoSQL'', ''Query Optimization'', ''Data Modeling'', ''Migrations'']),
      (''sub-ai-api'', ''API Designer'', ''API Design & Integration'',
         [''REST'', ''GraphQL'', ''gRPC'', ''WebSockets'', ''API Security''])]"

text \<open>
  \<open>INSERT OR IGNORE\<close>: a row whose \<open>agent_id\<close> is already stored is skipped; the other
  columns take their defaults (\<open>status 'active'\<close>, \<open>current_load 0\<close>, \<open>max_capacity 10\<close>).
\<close>

definition insert_agent :: "string \<times> string \<times> string \<times> string list \<Rightarrow> db \<Rightarrow> db" where
  "insert_agent row d =
     (case row of
        (aid, nm, spec, areas) \<Rightarrow>
          if aid \<in> set (map agent_id (sub_ai_agents d)) then d
          else d\<lparr>sub_ai_agents := sub_ai_agents d @
                 [\<lparr>agent_pk = next_pk (map agent_pk (sub_ai_agents d)), agent_id = aid,
                   agent_name = nm, agent_specialization = spec,
                   agent_expertise_areas = areas, agent_status = ''active'',
                   current_load = 0, max_capacity = 10\<rparr>]\<rparr>)"

definition seedSubAIAgents :: "db \<Rightarrow> db" where
  "seedSubAIAgents d = fold insert_agent subAIs d"

text \<open>The agent object the constructor of \<open>SubAIAgent\<close> builds from a stored row.\<close>

definition agent_of_row :: "agent_row \<Rightarrow> sub_ai_agent" where
  "agent_of_row s =
     \<lparr>sa_agentId = agent_id s, sa_name = agent_name s,
      sa_specialization = agent_specialization s,
      sa_expertiseAreas = agent_expertise_areas s\<rparr>"

section \<open>Notions used in the statements\<close>

text \<open>A work package names an agent of the registry.\<close>

definition known_agent :: "db \<Rightarrow> work_package \<Rightarrow> bool" where
  "known_agent d wp = (get_agent (assignedTo wp) d \<noteq> None)"

text \<open>The packages of a list whose \<open>assignedTo\<close> resolves to the agent row with key \<open>pk\<close>.\<close>

definition packages_for :: "db \<Rightarrow> nat \<Rightarrow> work_package list \<Rightarrow> work_package list" where
  "packages_for d pk wps =
     filter (\<lambda>wp. map_option agent_pk (get_agent (assignedTo wp) d) = Some pk) wps"

text \<open>The registry after each agent's load grew by the number of packages delegated to it.\<close>

definition loads_after :: "db \<Rightarrow> work_package list \<Rightarrow> agent_row list" where
  "loads_after d wps =
     map (\<lambda>s. s\<lparr>current_load :=
                  current_load s + int (length (packages_for d (agent_pk s) wps))\<rparr>)
         (sub_ai_agents d)"

text \<open>An entry of the returned list, and a stored assignment, belong to a work package.\<close>

definition info_matches :: "db \<Rightarrow> work_package \<Rightarrow> assignment_info \<Rightarrow> bool" where
  "info_matches d wp i =
     (ai_workPackage i = wp_name wp \<and> ai_elements i = elements wp \<and>
      Some (ai_agentName i) = map_option agent_name (get_agent (assignedTo wp) d))"

definition row_matches :: "db \<Rightarrow> nat \<Rightarrow> work_package \<Rightarrow> assignment_row \<Rightarrow> bool" where
  "row_matches d taskPk wp r =
     (asg_task_id r = taskPk \<and> assigned_elements r = elements wp \<and>
      asg_status r = AsgAssigned \<and>
      Some (asg_agent_id r) = map_option agent_pk (get_agent (assignedTo wp) d))"

text \<open>The store after one pass of the delegation loop for a package whose agent was found.\<close>

definition assign_package ::
  "(nat \<Rightarrow> string) \<Rightarrow> task \<Rightarrow> agent_row \<Rightarrow> work_package \<Rightarrow> db \<Rightarrow> db" where
  "assign_package U t agent wp d =
     (let d3 = adjust_load (agent_pk agent) 1
                 ((draw_uuid d)\<lparr>task_assignments :=
                     task_assignments d @ [new_assignment U t agent wp d]\<rparr>)
      in (draw_uuid d3)\<lparr>progress_updates := progress_updates d3 @
            [new_update U (tk_id t) ''atlantis'' ''ATLANTIS'' (assigned_message wp agent)
               (Some 10) d3]\<rparr>)"

text \<open>The value \<open>monitorProgress\<close> returns for a task in a store.\<close>

definition report_of :: "nat \<Rightarrow> db \<Rightarrow> progress_report" where
  "report_of taskId d =
     \<lparr>pr_completed = completed_of taskId d, pr_total = total_of taskId d,
      pr_progress = (if 0 < total_of taskId d
                     then round_percent (completed_of taskId d) (total_of taskId d) else 0)\<rparr>"

text \<open>The summary row of a progress check, and the store once it is written.\<close>

definition summary_update :: "(nat \<Rightarrow> string) \<Rightarrow> nat \<Rightarrow> db \<Rightarrow> update_row" where
  "summary_update U taskId d =
     new_update U taskId ''atlantis'' ''ATLANTIS''
       (progress_message (completed_of taskId d) (total_of taskId d))
       (Some (pr_progress (report_of taskId d))) d"

definition after_summary :: "(nat \<Rightarrow> string) \<Rightarrow> nat \<Rightarrow> db \<Rightarrow> db" where
  "after_summary U taskId d =
     (draw_uuid d)\<lparr>progress_updates := progress_updates d @ [summary_update U taskId d]\<rparr>"

text \<open>
  Repeated progress checks: one call of \<open>monitorProgress\<close> per clock reading of the list,
  in order, each on the store the previous call left.
\<close>

fun monitor_calls ::
  "(nat \<Rightarrow> string) \<Rightarrow> nat \<Rightarrow> nat list \<Rightarrow> db \<Rightarrow> (error + progress_report) list \<times> db" where
  "monitor_calls U taskId [] d = ([], d)"
| "monitor_calls U taskId (t # ts) d =
     (case monitorProgress U taskId (d\<lparr>clock := t\<rparr>) of
        (r, d1) \<Rightarrow> (case monitor_calls U taskId ts d1 of (rs, d2) \<Rightarrow> (r # rs, d2)))"

text \<open>
  The task object, the store and the plan \<open>receiveTask\<close> works with once \<open>createTask\<close> has
  accepted the input.
\<close>

definition received_task :: "(nat \<Rightarrow> string) \<Rightarrow> task_input \<Rightarrow> db \<Rightarrow> task" where
  "received_task U input d =
     \<lparr>tk_id = next_pk (map task_pk (tasks d)), tk_task_id = ''task-'' @ U (uuid_count d),
      tk_input = input\<rparr>"

definition accepted_store :: "(nat \<Rightarrow> string) \<Rightarrow> task_input \<Rightarrow> nat \<Rightarrow> string \<Rightarrow> db \<Rightarrow> db" where
  "accepted_store U input uid ttl d =
     (draw_uuid d)\<lparr>tasks := tasks d @ [new_task U input uid ttl d]\<rparr>"

definition chosen_plan :: "project_plan reply \<Rightarrow> project_plan" where
  "chosen_plan pr = (case pr of Returned p \<Rightarrow> p | CallFailed m \<Rightarrow> basic_plan)"

text \<open>The task the fallback of \<open>analyzeAssignment\<close> makes of one assigned element.\<close>

definition general_task :: "string \<Rightarrow> task_spec" where
  "general_task e =
     \<lparr>ts_description = Val e, ts_botType = Val ''general'',
      ts_expectedOutput = Val (''Complete: '' @ e)\<rparr>"

text \<open>
  What the two updates of the loop of \<open>executeWorkBots\<close> make of a bot's row when no
  statement of the loop body throws.
\<close>

definition ran :: "bot_result \<Rightarrow> nat \<Rightarrow> bot_row \<Rightarrow> bot_row" where
  "ran res now r =
     r\<lparr>bot_status := BotCompleted, bot_started_at := Some now, bot_result := Some res,
       bot_completed_at := Some now\<rparr>"



section \<open>Example stores and inputs\<close>

text \<open>
  A store after \<open>initializeDatabase\<close> and \<open>seedSubAIAgents\<close> with one registered user, and
  a task input as the route \<open>POST /api/tasks\<close> passes it on (the user's row key in
  \<open>userId\<close>). The examples draw identifiers from \<open>show_nat\<close>.
\<close>

definition demo_store :: db where
  "demo_store =
     (seedSubAIAgents (initializeDatabase 0))\<lparr>users := [\<lparr>user_pk = 1, github_username = ''u1''\<rparr>]\<rparr>"

definition demo_input :: task_input where
  "demo_input =
     \<lparr>in_userId = Val (RowKey 1), in_title = Val ''Build API'', in_description = Val ''...'',
      in_timeline = Undefined, in_desiredOutcomes = Undefined,
      in_availableResources = Undefined, in_priority = Undefined\<rparr>"

text \<open>The same input with the user's name in \<open>userId\<close>, as the specification writes the call.\<close>

definition named_input :: task_input where
  "named_input = demo_input\<lparr>in_userId := Val (UserName ''u1'')\<rparr>"


text \<open>
  A small store as the shipped schema gives it, with one task in progress and its one
  assignment waiting for the Code Architect; the agent object built from that row; and
  the same store with the assignment completed and reported.
\<close>

definition demo_assignment :: assignment_row where
  "demo_assignment =
     \<lparr>asg_pk = 1, assignment_id = ''assign-1'', asg_task_id = 1, asg_agent_id = 1,
      assigned_elements = [''Main implementation''], asg_status = AsgAssigned,
      asg_progress = 0, asg_assigned_at = 0, asg_started_at = None,
      asg_completed_at = None, asg_updated_at = None\<rparr>"

definition pending_store :: db where
  "pending_store =
     \<lparr>users = [\<lparr>user_pk = 1, github_username = ''u1''\<rparr>],
      tasks = [\<lparr>task_pk = 1, task_id = ''task-0'', task_user_id = 1, task_title = ''Build API'',
                task_description = ''...'', task_intent = None, task_timeline = [],
                task_desired_outcomes = [], task_available_resources = [],
                task_priority = ''normal'', task_status = TaskInProgress,
                task_created_at = 0, task_updated_at = 0, task_completed_at = None\<rparr>],
      sub_ai_agents = [\<lparr>agent_pk = 1, agent_id = ''sub-ai-code'', agent_name = ''Code Architect'',
                        agent_specialization = ''Code Development'',
                        agent_expertise_areas = [''JavaScript''], agent_status = ''active'',
                        current_load = 1, max_capacity = 10\<rparr>],
      task_assignments = [demo_assignment],
      work_bots = [], project_plans = [], progress_updates = [],
      asg_has_updated_at = False, uuid_count = 4, clock = 0\<rparr>"

definition code_architect :: sub_ai_agent where
  "code_architect =
     \<lparr>sa_agentId = ''sub-ai-code'', sa_name = ''Code Architect'',
      sa_specialization = ''Code Development'', sa_expertiseAreas = [''JavaScript'']\<rparr>"

definition finished_store :: db where
  "finished_store =
     pending_store
       \<lparr>task_assignments :=
          [demo_assignment\<lparr>asg_status := AsgCompleted, asg_progress := 100,
                            asg_completed_at := Some 7\<rparr>],
        sub_ai_agents := map (\<lambda>s. s\<lparr>current_load := 0\<rparr>) (sub_ai_agents pending_store),
        clock := 8\<rparr>"

text \<open>
  The seeded row of the Code Architect, and a plan of three work packages whose second
  names an agent the registry does not have.
\<close>

definition code_architect_row :: agent_row where
  "code_architect_row =
     \<lparr>agent_pk = 1, agent_id = ''sub-ai-code'', agent_name = ''Code Architect'',
      agent_specialization = ''Code Development'',
      agent_expertise_areas =
        [''JavaScript'', ''Python'', ''Java'', ''TypeScript'', ''Go'', ''Rust'', ''C#''],
      agent_status = ''active'', current_load = 0, max_capacity = 10\<rparr>"

definition three_packages :: project_plan where
  "three_packages =
     \<lparr>overview = ''Three packages'',
      workPackages =
        [\<lparr>wp_id = ''wp-1'', wp_name = ''Server'', assignedTo = ''sub-ai-code'',
           elements = [''routes'', ''handlers'']\<rparr>,
         \<lparr>wp_id = ''wp-2'', wp_name = ''Billing'', assignedTo = ''sub-ai-ghost'',
           elements = [''invoices'']\<rparr>,
         \<lparr>wp_id = ''wp-3'', wp_name = ''Tests'', assignedTo = ''sub-ai-testing'',
           elements = [''unit tests'']\<rparr>]\<rparr>"

text \<open>The small store with an assignment of seven elements.\<close>

definition wide_assignment :: assignment_row where
  "wide_assignment =
     demo_assignment\<lparr>assigned_elements :=
       [''e1'', ''e2'', ''e3'', ''e4'', ''e5'', ''e6'', ''e7'']\<rparr>"

definition wide_store :: db where
  "wide_store = pending_store\<lparr>task_assignments := [wide_assignment]\<rparr>"

text \<open>
  The small store on a database whose table \<open>task_assignments\<close> has the column
  \<open>updated_at\<close> that \<open>updateAssignmentStatus\<close> names; the same with an assignment of four
  elements; and two collaborators for the execution of the bots: one whose third call
  fails, one whose every call fails.
\<close>

definition migrated_store :: db where
  "migrated_store = pending_store\<lparr>asg_has_updated_at := True\<rparr>"

definition four_assignment :: assignment_row where
  "four_assignment =
     demo_assignment\<lparr>assigned_elements := [''e1'', ''e2'', ''e3'', ''e4'']\<rparr>"

definition four_store :: db where
  "four_store = pending_store\<lparr>task_assignments := [four_assignment], asg_has_updated_at := True\<rparr>"

definition third_call_fails :: "nat \<Rightarrow> string reply" where
  "third_call_fails i = (if i = 2 then CallFailed ''timeout'' else Returned ''done'')"

definition every_call_fails :: "nat \<Rightarrow> string reply" where
  "every_call_fails i = CallFailed ''timeout''"

text \<open>A decomposition with one task whose description is \<open>null\<close>.\<close>

definition null_description :: analysis where
  "null_description =
     \<lparr>an_tasks = Val [\<lparr>ts_description = Null, ts_botType = Val ''research'',
                       ts_expectedOutput = Undefined\<rparr>],
      an_strategy = Val ''Sequential execution''\<rparr>"

text \<open>
  Two replies of the collaborator to the decomposition: an object without \<open>tasks\<close>, and
  one whose \<open>tasks\<close> is the empty array.
\<close>

definition no_tasks :: analysis where
  "no_tasks = \<lparr>an_tasks = Undefined, an_strategy = Val ''Sequential execution''\<rparr>"

definition empty_tasks :: analysis where
  "empty_tasks = \<lparr>an_tasks = Val [], an_strategy = Val ''Sequential execution''\<rparr>"

section \<open>Auxiliary facts about the store operations\<close>

lemma fold_max_ge: "a \<le> fold max ks (a::nat)"
  by (induction ks arbitrary: a) (auto intro: order_trans [OF max.cobounded2])

lemma fold_max_mem: "k \<in> set ks \<Longrightarrow> k \<le> fold max ks (a::nat)"
proof (induction ks arbitrary: a)
  case Nil
  then show ?case by simp
next
  case (Cons x ks)
  show ?case
  proof (cases "k = x")
    case True
    have "x \<le> max x a" by simp
    also have "\<dots> \<le> fold max ks (max x a)" by (rule fold_max_ge)
    finally show ?thesis using True by simp
  next
    case False
    with Cons show ?thesis by simp
  qed
qed

lemma next_pk_fresh: "k \<in> set ks \<Longrightarrow> k < next_pk ks"
  using fold_max_mem [of k ks 0] by (simp add: next_pk_def)

lemma draw_uuid_fields [simp]:
  "users (draw_uuid d) = users d"
  "tasks (draw_uuid d) = tasks d"
  "sub_ai_agents (draw_uuid d) = sub_ai_agents d"
  "task_assignments (draw_uuid d) = task_assignments d"
  "work_bots (draw_uuid d) = work_bots d"
  "project_plans (draw_uuid d) = project_plans d"
  "progress_updates (draw_uuid d) = progress_updates d"
  "asg_has_updated_at (draw_uuid d) = asg_has_updated_at d"
  "clock (draw_uuid d) = clock d"
  "uuid_count (draw_uuid d) = Suc (uuid_count d)"
  by (simp_all add: draw_uuid_def)

lemma adjust_load_fields [simp]:
  "users (adjust_load pk delta d) = users d"
  "tasks (adjust_load pk delta d) = tasks d"
  "task_assignments (adjust_load pk delta d) = task_assignments d"
  "work_bots (adjust_load pk delta d) = work_bots d"
  "project_plans (adjust_load pk delta d) = project_plans d"
  "progress_updates (adjust_load pk delta d) = progress_updates d"
  "asg_has_updated_at (adjust_load pk delta d) = asg_has_updated_at d"
  "clock (adjust_load pk delta d) = clock d"
  "uuid_count (adjust_load pk delta d) = uuid_count d"
  by (simp_all add: adjust_load_def)

lemma update_task_fields [simp]:
  "users (update_task pk f d) = users d"
  "sub_ai_agents (update_task pk f d) = sub_ai_agents d"
  "task_assignments (update_task pk f d) = task_assignments d"
  "work_bots (update_task pk f d) = work_bots d"
  "project_plans (update_task pk f d) = project_plans d"
  "progress_updates (update_task pk f d) = progress_updates d"
  "asg_has_updated_at (update_task pk f d) = asg_has_updated_at d"
  "clock (update_task pk f d) = clock d"
  "uuid_count (update_task pk f d) = uuid_count d"
  by (simp_all add: update_task_def)

lemma update_assignment_fields [simp]:
  "users (update_assignment pk f d) = users d"
  "tasks (update_assignment pk f d) = tasks d"
  "sub_ai_agents (update_assignment pk f d) = sub_ai_agents d"
  "work_bots (update_assignment pk f d) = work_bots d"
  "project_plans (update_assignment pk f d) = project_plans d"
  "progress_updates (update_assignment pk f d) = progress_updates d"
  "asg_has_updated_at (update_assignment pk f d) = asg_has_updated_at d"
  "clock (update_assignment pk f d) = clock d"
  "uuid_count (update_assignment pk f d) = uuid_count d"
  by (simp_all add: update_assignment_def)

lemma update_bot_fields [simp]:
  "users (update_bot b f d) = users d"
  "tasks (update_bot b f d) = tasks d"
  "sub_ai_agents (update_bot b f d) = sub_ai_agents d"
  "task_assignments (update_bot b f d) = task_assignments d"
  "project_plans (update_bot b f d) = project_plans d"
  "progress_updates (update_bot b f d) = progress_updates d"
  "asg_has_updated_at (update_bot b f d) = asg_has_updated_at d"
  "clock (update_bot b f d) = clock d"
  "uuid_count (update_bot b f d) = uuid_count d"
  by (simp_all add: update_bot_def)

lemma addProgressUpdate_ok:
  assumes "taskId \<in> task_pk ` set (tasks d)"
  shows "addProgressUpdate U taskId st sid msg p d =
           (Inr (), (draw_uuid d)\<lparr>progress_updates :=
                       progress_updates d @ [new_update U taskId st sid msg p d]\<rparr>)"
  using assms by (simp add: addProgressUpdate_def Let_def)

lemma delegate_packages_Cons:
  assumes "tk_id t \<in> task_pk ` set (tasks d)"
  shows "delegate_packages U t (wp # wps) d =
           (case get_agent (assignedTo wp) d of
              None \<Rightarrow> delegate_packages U t wps d
            | Some agent \<Rightarrow>
                (case delegate_packages U t wps (assign_package U t agent wp d) of
                   (Inl e, d5) \<Rightarrow> (Inl e, d5)
                 | (Inr infos, d5) \<Rightarrow> (Inr (info_of U agent wp d # infos), d5)))"
proof (cases "get_agent (assignedTo wp) d")
  case None
  then show ?thesis by simp
next
  case (Some agent)
  have t: "tk_id t \<in> task_pk ` set (tasks (adjust_load (agent_pk agent) 1
             ((draw_uuid d)\<lparr>task_assignments :=
                 task_assignments d @ [new_assignment U t agent wp d]\<rparr>)))"
    using assms by simp
  show ?thesis
    using assms Some
    by (simp add: Let_def addProgressUpdate_ok [OF t] assign_package_def)
qed

lemma find_map_stable:
  assumes "\<And>x. P (f x) = P x"
  shows "find P (map f xs) = map_option f (find P xs)"
  by (induction xs) (simp_all add: assms)

lemma get_agent_adjust_load:
  "get_agent name (adjust_load pk delta d) =
     map_option (\<lambda>s. if agent_pk s = pk then s\<lparr>current_load := current_load s + delta\<rparr> else s)
       (get_agent name d)"
  unfolding get_agent_def adjust_load_def
  by (simp add: find_map_stable)

lemma assign_package_fields:
  "tasks (assign_package U t agent wp d) = tasks d"
  "users (assign_package U t agent wp d) = users d"
  "work_bots (assign_package U t agent wp d) = work_bots d"
  "project_plans (assign_package U t agent wp d) = project_plans d"
  "clock (assign_package U t agent wp d) = clock d"
  "task_assignments (assign_package U t agent wp d) =
     task_assignments d @ [new_assignment U t agent wp d]"
  "sub_ai_agents (assign_package U t agent wp d) =
     map (\<lambda>s. if agent_pk s = agent_pk agent then s\<lparr>current_load := current_load s + 1\<rparr> else s)
         (sub_ai_agents d)"
  "\<exists>u. progress_updates (assign_package U t agent wp d) = progress_updates d @ [u] \<and>
       update_task_id u = tk_id t \<and> progress_percentage u = Some 10"
  by (simp_all add: assign_package_def Let_def adjust_load_def new_update_def)

lemma get_agent_assign_package:
  "get_agent name (assign_package U t agent wp d) =
     map_option (\<lambda>s. if agent_pk s = agent_pk agent
                       then s\<lparr>current_load := current_load s + 1\<rparr> else s)
       (get_agent name d)"
  unfolding get_agent_def assign_package_fields(7)
  by (simp add: find_map_stable)

lemma known_agent_assign_package [simp]:
  "known_agent (assign_package U t agent wp d) = known_agent d"
  by (rule ext) (simp add: known_agent_def get_agent_assign_package)

lemma resolved_pk_assign_package [simp]:
  "map_option agent_pk (get_agent name (assign_package U t agent wp d)) =
     map_option agent_pk (get_agent name d)"
  by (cases "get_agent name d") (simp_all add: get_agent_assign_package)

lemma resolved_name_assign_package [simp]:
  "map_option agent_name (get_agent name (assign_package U t agent wp d)) =
     map_option agent_name (get_agent name d)"
  by (cases "get_agent name d") (simp_all add: get_agent_assign_package)

lemma packages_for_assign_package [simp]:
  "packages_for (assign_package U t agent wp d) = packages_for d"
  by (intro ext) (simp add: packages_for_def)



lemma info_matches_assign_package [simp]:
  "info_matches (assign_package U t agent wp' d) = info_matches d"
  by (intro ext) (simp add: info_matches_def)

lemma row_matches_assign_package [simp]:
  "row_matches (assign_package U t agent wp' d) = row_matches d"
  by (intro ext) (simp add: row_matches_def)

lemma loads_after_Cons_unknown:
  assumes "get_agent (assignedTo wp) d = None"
  shows "loads_after d (wp # wps) = loads_after d wps"
  using assms by (simp add: loads_after_def packages_for_def)

lemma loads_after_Cons_known:
  assumes "get_agent (assignedTo wp) d = Some agent"
  shows "loads_after d (wp # wps) = loads_after (assign_package U t agent wp d) wps"
  using assms
  by (simp add: loads_after_def assign_package_fields(7) comp_def packages_for_def)

lemma delegate_packages_spec:
  assumes "tk_id t \<in> task_pk ` set (tasks d)"
  shows "\<exists>infos rows ups d'.
           delegate_packages U t wps d = (Inr infos, d') \<and>
           tasks d' = tasks d \<and> users d' = users d \<and> work_bots d' = work_bots d \<and>
           project_plans d' = project_plans d \<and> clock d' = clock d \<and>
           task_assignments d' = task_assignments d @ rows \<and>
           progress_updates d' = progress_updates d @ ups \<and>
           list_all2 (info_matches d) (filter (known_agent d) wps) infos \<and>
           list_all2 (row_matches d (tk_id t)) (filter (known_agent d) wps) rows \<and>
           list_all2 (\<lambda>wp u. update_task_id u = tk_id t \<and> progress_percentage u = Some 10)
             (filter (known_agent d) wps) ups \<and>
           sub_ai_agents d' = loads_after d wps"
  using assms
proof (induction wps arbitrary: d)
  case Nil
  then show ?case
    by (simp add: loads_after_def packages_for_def)
next
  case (Cons wp wps)
  show ?case
  proof (cases "get_agent (assignedTo wp) d")
    case None
    then have "\<not> known_agent d wp"
      by (simp add: known_agent_def)
    with Cons.IH [OF Cons.prems] None show ?thesis
      by (subst delegate_packages_Cons [OF Cons.prems]) (simp add: loads_after_Cons_unknown)
  next
    case (Some agent)
    let ?d4 = "assign_package U t agent wp d"
    have k: "known_agent d wp"
      using Some by (simp add: known_agent_def)
    have t4: "tk_id t \<in> task_pk ` set (tasks ?d4)"
      using Cons.prems by (simp add: assign_package_fields)
    from Cons.IH [OF t4] obtain infos rows ups d' where
      run: "delegate_packages U t wps ?d4 = (Inr infos, d')"
      and fr: "tasks d' = tasks ?d4" "users d' = users ?d4" "work_bots d' = work_bots ?d4"
              "project_plans d' = project_plans ?d4" "clock d' = clock ?d4"
      and ta: "task_assignments d' = task_assignments ?d4 @ rows"
      and pu: "progress_updates d' = progress_updates ?d4 @ ups"
      and mi: "list_all2 (info_matches d) (filter (known_agent d) wps) infos"
      and mr: "list_all2 (row_matches d (tk_id t)) (filter (known_agent d) wps) rows"
      and mu: "list_all2 (\<lambda>wp u. update_task_id u = tk_id t \<and> progress_percentage u = Some 10)
                 (filter (known_agent d) wps) ups"
      and ld: "sub_ai_agents d' = loads_after ?d4 wps"
      by auto
    obtain u where u: "progress_updates ?d4 = progress_updates d @ [u]"
      "update_task_id u = tk_id t" "progress_percentage u = Some 10"
      using assign_package_fields(8) by blast
    have i0: "info_matches d wp (info_of U agent wp d)"
      using Some by (simp add: info_matches_def info_of_def)
    have r0: "row_matches d (tk_id t) wp (new_assignment U t agent wp d)"
      using Some by (simp add: row_matches_def new_assignment_def)
    have eq: "delegate_packages U t (wp # wps) d = (Inr (info_of U agent wp d # infos), d')"
      using run Some by (subst delegate_packages_Cons [OF Cons.prems]) simp
    show ?thesis
      apply (rule exI [of _ "info_of U agent wp d # infos"])
      apply (rule exI [of _ "new_assignment U t agent wp d # rows"])
      apply (rule exI [of _ "u # ups"])
      apply (rule exI [of _ d'])
      using eq fr ta pu mi mr mu ld k i0 r0 u
      by (simp add: assign_package_fields(1-6) loads_after_Cons_known [OF Some, symmetric]
               del: delegate_packages.simps)
  qed
qed

section \<open>Auxiliary facts about the progress check\<close>

lemma round_half_even_exact: "0 < b \<Longrightarrow> round_half_even (k * b) b = k"
  by (simp add: round_half_even_def Let_def)

lemma double_of_one: "0 < a \<Longrightarrow> double_of a a = (2 ^ 52, 52)"
proof -
  assume a: "0 < a"
  have "round_half_even (a * 2 ^ 52) a = 2 ^ 52"
    using round_half_even_exact [OF a, of "2 ^ 52"] by (simp only: mult.commute)
  then show ?thesis
    by (simp only: double_of_def Let_def add_diff_cancel_right' order_refl if_True)
qed

lemma double_of_hundred: "double_of (100 * 2 ^ 52) (2 ^ 52) = (100 * 2 ^ 46, 46)"
  by code_simp

lemma round_percent_all: "0 < n \<Longrightarrow> round_percent n n = 100"
proof -
  assume n: "0 < n"
  have d: "double_of (int n) (int n) = (2 ^ 52, 52)"
    using n by (simp only: double_of_one of_nat_0_less_iff)
  have f: "(2 * (100 * 2 ^ 46) + 2 ^ 46) div 2 ^ Suc 46 = (100 :: int)"
    by simp
  have "round_percent n n = (2 * (100 * 2 ^ 46) + 2 ^ 46) div 2 ^ Suc 46"
    using n unfolding round_percent_def d prod.case double_of_hundred by simp
  then show ?thesis unfolding f .
qed

text \<open>
  The double computation is not the exact one: \<open>23 / 40\<close> of 100 is 57.5, but the product
  of the doubles is just below it.
\<close>

lemma round_percent_examples:
  "round_percent 23 40 = 57" "round_percent 29 200 = 14" "round_percent 1 8 = 13"
  "round_percent 1 3 = 33" "round_percent 2 3 = 67" "round_percent 3 4 = 75"
  by code_simp+

lemma task_pks_update_task [simp]:
  assumes "\<And>row. task_pk (f row) = task_pk row"
  shows "task_pk ` set (tasks (update_task pk f d)) = task_pk ` set (tasks d)"
proof -
  have "map task_pk (tasks (update_task pk f d)) = map task_pk (tasks d)"
    by (simp add: update_task_def assms)
  then show ?thesis
    by (metis list.set_map)
qed

lemma task_pk_finalized [simp]: "task_pk (finalized now row) = task_pk row"
  by (simp add: finalized_def)

lemma finalizeTask_ok:
  assumes "taskId \<in> task_pk ` set (tasks d)"
  shows "finalizeTask U taskId d =
           (Inr (), (draw_uuid (update_task taskId (finalized (clock d)) d))
                      \<lparr>progress_updates := progress_updates d @
                        [new_update U taskId ''atlantis'' ''ATLANTIS''
                           ''Task completed successfully! All work packages finished.''
                           (Some 100) (update_task taskId (finalized (clock d)) d)]\<rparr>)"
proof -
  have "taskId \<in> task_pk ` set (tasks (update_task taskId (finalized (clock d)) d))"
    using assms by simp
  then show ?thesis
    unfolding finalizeTask_def by (subst addProgressUpdate_ok) simp_all
qed

lemma after_summary_fields [simp]:
  "users (after_summary U taskId d) = users d"
  "tasks (after_summary U taskId d) = tasks d"
  "sub_ai_agents (after_summary U taskId d) = sub_ai_agents d"
  "task_assignments (after_summary U taskId d) = task_assignments d"
  "work_bots (after_summary U taskId d) = work_bots d"
  "project_plans (after_summary U taskId d) = project_plans d"
  "clock (after_summary U taskId d) = clock d"
  "progress_updates (after_summary U taskId d) = progress_updates d @ [summary_update U taskId d]"
  by (simp_all add: after_summary_def)

lemma summary_step:
  assumes "taskId \<in> task_pk ` set (tasks d)"
  shows "addProgressUpdate U taskId ''atlantis'' ''ATLANTIS''
           (progress_message (completed_of taskId d) (total_of taskId d))
           (Some (if 0 < total_of taskId d
                  then round_percent (completed_of taskId d) (total_of taskId d) else 0)) d =
         (Inr (), after_summary U taskId d)"
  by (simp add: addProgressUpdate_ok [OF assms] after_summary_def summary_update_def
                report_of_def)

lemma monitorProgress_not_all:
  assumes "taskId \<in> task_pk ` set (tasks d)"
    and c: "\<not> (completed_of taskId d = total_of taskId d \<and> 0 < total_of taskId d)"
  shows "monitorProgress U taskId d = (Inr (report_of taskId d), after_summary U taskId d)"
  unfolding monitorProgress_def Let_def summary_step [OF assms(1)]
  by (simp only: prod.case sum.case if_not_P [OF c] report_of_def)

lemma monitorProgress_all:
  assumes "taskId \<in> task_pk ` set (tasks d)"
    and c: "completed_of taskId d = total_of taskId d \<and> 0 < total_of taskId d"
  shows "monitorProgress U taskId d =
           (Inr (report_of taskId d),
            (draw_uuid (update_task taskId (finalized (clock d)) (after_summary U taskId d)))
              \<lparr>progress_updates := progress_updates d @
                 [summary_update U taskId d,
                  new_update U taskId ''atlantis'' ''ATLANTIS''
                    ''Task completed successfully! All work packages finished.'' (Some 100)
                    (update_task taskId (finalized (clock d)) (after_summary U taskId d))]\<rparr>)"
proof -
  have t1: "taskId \<in> task_pk ` set (tasks (after_summary U taskId d))"
    using assms by simp
  show ?thesis
    unfolding monitorProgress_def Let_def summary_step [OF assms(1)]
    apply (simp only: prod.case sum.case if_P [OF c] finalizeTask_ok [OF t1])
    apply (simp add: report_of_def)
    done
qed


lemma monitorProgress_frame:
  assumes "taskId \<in> task_pk ` set (tasks d)"
  shows "task_assignments (snd (monitorProgress U taskId d)) = task_assignments d"
    and "sub_ai_agents (snd (monitorProgress U taskId d)) = sub_ai_agents d"
    and "task_pk ` set (tasks (snd (monitorProgress U taskId d))) = task_pk ` set (tasks d)"
proof -
  show "task_assignments (snd (monitorProgress U taskId d)) = task_assignments d"
    by (cases "completed_of taskId d = total_of taskId d \<and> 0 < total_of taskId d")
       (simp_all add: monitorProgress_all [OF assms] monitorProgress_not_all [OF assms])
  show "sub_ai_agents (snd (monitorProgress U taskId d)) = sub_ai_agents d"
    by (cases "completed_of taskId d = total_of taskId d \<and> 0 < total_of taskId d")
       (simp_all add: monitorProgress_all [OF assms] monitorProgress_not_all [OF assms])
  show "task_pk ` set (tasks (snd (monitorProgress U taskId d))) = task_pk ` set (tasks d)"
    by (cases "completed_of taskId d = total_of taskId d \<and> 0 < total_of taskId d")
       (simp_all add: monitorProgress_all [OF assms] monitorProgress_not_all [OF assms])
qed

lemma counts_frame:
  assumes "task_assignments d' = task_assignments d" and "sub_ai_agents d' = sub_ai_agents d"
  shows "completed_of taskId d' = completed_of taskId d"
    and "total_of taskId d' = total_of taskId d"
  using assms by (simp_all add: completed_of_def total_of_def assignments_of_def)

lemma counts_clock [simp]:
  "completed_of taskId (d\<lparr>clock := t\<rparr>) = completed_of taskId d"
  "total_of taskId (d\<lparr>clock := t\<rparr>) = total_of taskId d"
  by (simp_all add: completed_of_def total_of_def assignments_of_def)

lemma updated_rows_completed:
  assumes "row \<in> set (tasks (update_task taskId (finalized now) d))" and "task_pk row = taskId"
  shows "task_status row = TaskCompleted"
proof -
  from assms(1) have "row \<in> (\<lambda>r. if task_pk r = taskId then finalized now r else r) ` set (tasks d)"
    by (simp add: update_task_def)
  then obtain r where r: "row = (if task_pk r = taskId then finalized now r else r)"
    by blast
  with assms(2) have "task_pk r = taskId"
    by (simp split: if_splits)
  with r show ?thesis
    by (simp add: finalized_def)
qed

lemma monitorProgress_completed_rows:
  assumes "taskId \<in> task_pk ` set (tasks d)"
    and c: "completed_of taskId d = total_of taskId d \<and> 0 < total_of taskId d"
  shows "\<forall>row \<in> set (tasks (snd (monitorProgress U taskId d))).
           task_pk row = taskId \<longrightarrow> task_status row = TaskCompleted"
proof -
  have "tasks (snd (monitorProgress U taskId d)) =
          tasks (update_task taskId (finalized (clock d)) d)"
    by (simp add: monitorProgress_all [OF assms(1) c] update_task_def)
  then show ?thesis
    using updated_rows_completed by (simp only:) blast
qed

lemma monitor_calls_idempotent:
  assumes "taskId \<in> task_pk ` set (tasks d)"
    and "completed_of taskId d = total_of taskId d" and "0 < total_of taskId d"
    and "ts \<noteq> []"
  shows "\<exists>d'. monitor_calls U taskId ts d =
               (replicate (length ts)
                  (Inr \<lparr>pr_completed = total_of taskId d, pr_total = total_of taskId d,
                        pr_progress = 100\<rparr>), d') \<and>
             (\<forall>row \<in> set (tasks d'). task_pk row = taskId \<longrightarrow> task_status row = TaskCompleted)"
  using assms
proof (induction ts arbitrary: d)
  case Nil
  then show ?case by simp
next
  case (Cons t ts)
  let ?d0 = "d\<lparr>clock := t\<rparr>"
  let ?d1 = "snd (monitorProgress U taskId ?d0)"
  have ex0: "taskId \<in> task_pk ` set (tasks ?d0)"
    using Cons.prems(1) by simp
  have c0: "completed_of taskId ?d0 = total_of taskId ?d0 \<and> 0 < total_of taskId ?d0"
    using Cons.prems(2,3) by simp
  have r: "fst (monitorProgress U taskId ?d0) =
             Inr \<lparr>pr_completed = total_of taskId d, pr_total = total_of taskId d, pr_progress = 100\<rparr>"
    using c0 by (simp add: monitorProgress_all [OF ex0 c0] report_of_def round_percent_all)
  have ex1: "taskId \<in> task_pk ` set (tasks ?d1)"
    using monitorProgress_frame(3) [OF ex0] ex0 by simp
  have cnt: "completed_of taskId ?d1 = completed_of taskId d" "total_of taskId ?d1 = total_of taskId d"
    using counts_frame [OF monitorProgress_frame(1) [OF ex0] monitorProgress_frame(2) [OF ex0]]
    by simp_all
  show ?case
  proof (cases "ts = []")
    case True
    then show ?thesis
      using r monitorProgress_completed_rows [OF ex0 c0]
      by (simp add: split_def)
  next
    case False
    from Cons.IH [OF ex1 _ _ False] cnt Cons.prems(2,3)
    obtain d' where
      "monitor_calls U taskId ts ?d1 =
         (replicate (length ts)
            (Inr \<lparr>pr_completed = total_of taskId d, pr_total = total_of taskId d,
                  pr_progress = 100\<rparr>), d')"
      and "\<forall>row \<in> set (tasks d'). task_pk row = taskId \<longrightarrow> task_status row = TaskCompleted"
      by auto
    then show ?thesis
      using r by (simp add: split_def)
  qed
qed


lemma no_regress_update_task:
  "list_all2 (\<lambda>row row'. task_pk row' = task_pk row \<and>
                (task_status row = TaskCompleted \<longrightarrow> task_status row' = TaskCompleted))
     (tasks d) (tasks (update_task taskId (finalized now) d))"
proof -
  have "list_all2 (\<lambda>row row'. task_pk row' = task_pk row \<and>
                (task_status row = TaskCompleted \<longrightarrow> task_status row' = TaskCompleted))
          rows (map (\<lambda>row. if task_pk row = taskId then finalized now row else row) rows)"
    for rows
    by (induction rows) (simp_all add: finalized_def)
  then show ?thesis
    by (simp add: update_task_def)
qed

lemma no_regress_refl:
  "list_all2 (\<lambda>row row'. task_pk row' = task_pk row \<and>
                (task_status row = TaskCompleted \<longrightarrow> task_status row' = TaskCompleted))
     rows rows"
  by (induction rows) simp_all

lemma monitorProgress_no_regress:
  assumes "taskId \<in> task_pk ` set (tasks d)"
  shows "list_all2 (\<lambda>row row'. task_pk row' = task_pk row \<and>
                      (task_status row = TaskCompleted \<longrightarrow> task_status row' = TaskCompleted))
           (tasks d) (tasks (snd (monitorProgress U taskId d)))"
proof (cases "completed_of taskId d = total_of taskId d \<and> 0 < total_of taskId d")
  case True
  have eq: "tasks (snd (monitorProgress U taskId d)) =
          tasks (update_task taskId (finalized (clock d)) d)"
    by (simp add: monitorProgress_all [OF assms True] update_task_def)
  show ?thesis
    unfolding eq by (rule no_regress_update_task)
next
  case False
  have eq: "tasks (snd (monitorProgress U taskId d)) = tasks d"
    by (simp add: monitorProgress_not_all [OF assms False])
  show ?thesis
    unfolding eq by (rule no_regress_refl)
qed

lemma monitorProgress_all_ex:
  assumes "taskId \<in> task_pk ` set (tasks d)"
    and c: "completed_of taskId d = total_of taskId d \<and> 0 < total_of taskId d"
  shows "\<exists>d' u1 u2. monitorProgress U taskId d = (Inr (report_of taskId d), d') \<and>
           tasks d' = tasks (update_task taskId (finalized (clock d)) d) \<and>
           progress_updates d' = progress_updates d @ [u1, u2] \<and>
           update_task_id u2 = taskId \<and> progress_percentage u2 = Some 100"
  by (simp add: monitorProgress_all [OF assms] new_update_def update_task_def)

lemma monitorProgress_not_all_ex:
  assumes "taskId \<in> task_pk ` set (tasks d)"
    and c: "\<not> (completed_of taskId d = total_of taskId d \<and> 0 < total_of taskId d)"
  shows "\<exists>d' u1. monitorProgress U taskId d = (Inr (report_of taskId d), d') \<and>
           tasks d' = tasks d \<and> progress_updates d' = progress_updates d @ [u1] \<and>
           update_task_id u1 = taskId"
  by (simp add: monitorProgress_not_all [OF assms] summary_update_def new_update_def)

text \<open>
  When every assignment names exactly one agent row (the foreign key and the primary key
  of the schema), the join has one row per assignment of the task.
\<close>

lemma joined_rows_aux:
  assumes "\<forall>a\<in>set xs. length (filter (\<lambda>s. agent_pk s = asg_agent_id a) ags) = 1"
  shows "map fst [(a, s). a \<leftarrow> xs, s \<leftarrow> ags, asg_agent_id a = agent_pk s, asg_task_id a = taskId] =
           filter (\<lambda>a. asg_task_id a = taskId) xs"
  using assms
proof (induction xs)
  case Nil
  show ?case by simp
next
  case (Cons a xs)
  have one: "length (filter (\<lambda>s. agent_pk s = asg_agent_id a) ags) = 1"
    using Cons.prems by simp
  then obtain s where s: "filter (\<lambda>s. agent_pk s = asg_agent_id a) ags = [s]"
    by (cases "filter (\<lambda>s. agent_pk s = asg_agent_id a) ags") auto
  have inner: "map fst (concat (map (\<lambda>s. if asg_agent_id a = agent_pk s
                                       then (if asg_task_id a = taskId then [(a, s)] else [])
                                       else []) ags)) =
               (if asg_task_id a = taskId
                then map (\<lambda>s. a) (filter (\<lambda>s. agent_pk s = asg_agent_id a) ags) else [])"
    by (induction ags) auto
  have "map fst [(a', s). a' \<leftarrow> a # xs, s \<leftarrow> ags, asg_agent_id a' = agent_pk s,
                          asg_task_id a' = taskId] =
        (if asg_task_id a = taskId then [a] else []) @
        map fst [(a', s). a' \<leftarrow> xs, s \<leftarrow> ags, asg_agent_id a' = agent_pk s,
                          asg_task_id a' = taskId]"
    using inner by (simp add: s)
  also have "\<dots> = filter (\<lambda>a. asg_task_id a = taskId) (a # xs)"
    using Cons.IH Cons.prems by simp
  finally show ?case .
qed

lemma joined_rows:
  assumes "\<forall>a\<in>set (task_assignments d).
             length (filter (\<lambda>s. agent_pk s = asg_agent_id a) (sub_ai_agents d)) = 1"
  shows "map fst (assignments_of taskId d) =
           filter (\<lambda>a. asg_task_id a = taskId) (task_assignments d)"
  unfolding assignments_of_def by (rule joined_rows_aux [OF assms])

lemma length_filter_fst:
  "length (filter (\<lambda>(a, s). P a) xs) = length (filter P (map fst xs))"
  by (induction xs) auto

lemma counts_raw:
  assumes "\<forall>a\<in>set (task_assignments d).
             length (filter (\<lambda>s. agent_pk s = asg_agent_id a) (sub_ai_agents d)) = 1"
  shows "total_of taskId d = length (filter (\<lambda>a. asg_task_id a = taskId) (task_assignments d))"
    and "completed_of taskId d =
           length (filter (\<lambda>a. asg_status a = AsgCompleted)
                     (filter (\<lambda>a. asg_task_id a = taskId) (task_assignments d)))"
proof -
  show "total_of taskId d = length (filter (\<lambda>a. asg_task_id a = taskId) (task_assignments d))"
    unfolding total_of_def using arg_cong [OF joined_rows [OF assms, of taskId], of length]
    by simp
  show "completed_of taskId d =
           length (filter (\<lambda>a. asg_status a = AsgCompleted)
                     (filter (\<lambda>a. asg_task_id a = taskId) (task_assignments d)))"
    unfolding completed_of_def length_filter_fst joined_rows [OF assms] ..
qed

lemma all_filtered: "(length (filter P xs) = length xs) = (\<forall>x\<in>set xs. P x)"
proof (induction xs)
  case Nil
  show ?case by simp
next
  case (Cons x xs)
  have le: "length (filter P xs) \<le> length xs" by simp
  show ?case
  proof (cases "P x")
    case True
    then show ?thesis using Cons.IH by simp
  next
    case False
    have "length (filter P xs) \<noteq> Suc (length xs)" using le by arith
    then show ?thesis using False by simp
  qed
qed

lemma finalized_rows:
  "tasks (update_task taskId (finalized now) d) =
     map (\<lambda>row. if task_pk row = taskId
                 then row\<lparr>task_status := TaskCompleted, task_completed_at := Some now,
                          task_updated_at := now\<rparr>
                 else row) (tasks d)"
  by (simp add: update_task_def finalized_def)

lemma monitorProgress_all_updates:
  assumes "taskId \<in> task_pk ` set (tasks d)"
    and c: "completed_of taskId d = total_of taskId d \<and> 0 < total_of taskId d"
  shows "\<exists>u1 u2. progress_updates (snd (monitorProgress U taskId d)) =
                    progress_updates d @ [u1, u2] \<and>
           update_task_id u1 = taskId \<and> progress_percentage u1 = Some 100 \<and>
           update_task_id u2 = taskId \<and> progress_percentage u2 = Some 100 \<and>
           message u2 = ''Task completed successfully! All work packages finished.'' \<and>
           update_created_at u2 = clock d"
  using c
  by (simp add: monitorProgress_all [OF assms] new_update_def summary_update_def report_of_def
                round_percent_all)

section \<open>Auxiliary facts about task intake\<close>

lemma createTask_ok:
  assumes "in_userId input = Val (RowKey uid)" and "in_title input = Val ttl"
    and "uid \<in> user_pk ` set (users d)"
  shows "createTask U input d =
           (Inr \<lparr>tk_id = next_pk (map task_pk (tasks d)),
                 tk_task_id = ''task-'' @ U (uuid_count d), tk_input = input\<rparr>,
            (draw_uuid d)\<lparr>tasks := tasks d @ [new_task U input uid ttl d]\<rparr>)"
  using assms by (simp add: createTask_def Let_def new_task_def stored_key_def)

lemma understandIntent_frame:
  "users (snd (understandIntent ur t d)) = users d"
  "sub_ai_agents (snd (understandIntent ur t d)) = sub_ai_agents d"
  "task_assignments (snd (understandIntent ur t d)) = task_assignments d"
  "work_bots (snd (understandIntent ur t d)) = work_bots d"
  "clock (snd (understandIntent ur t d)) = clock d"
  "map task_pk (tasks (snd (understandIntent ur t d))) = map task_pk (tasks d)"
  by (cases ur; simp add: understandIntent_def update_task_def)+

lemma understandIntent_failed:
  "understandIntent (CallFailed m) t d =
     (\<lparr>primaryIntent = in_description (tk_input t), complexity = Val ''Moderate'',
       requiredExpertise = Val [''General'']\<rparr>, d)"
  by (simp add: understandIntent_def)

lemma createProjectPlan_frame:
  "users (snd (createProjectPlan U pr t u d)) = users d"
  "tasks (snd (createProjectPlan U pr t u d)) = tasks d"
  "sub_ai_agents (snd (createProjectPlan U pr t u d)) = sub_ai_agents d"
  "task_assignments (snd (createProjectPlan U pr t u d)) = task_assignments d"
  "work_bots (snd (createProjectPlan U pr t u d)) = work_bots d"
  "clock (snd (createProjectPlan U pr t u d)) = clock d"
  by (cases pr; simp add: createProjectPlan_def Let_def)+

lemma createProjectPlan_plan:
  assumes "tk_id t \<in> task_pk ` set (tasks d)"
  shows "fst (createProjectPlan U pr t u d) =
           (case pr of Returned plan \<Rightarrow> plan | CallFailed m \<Rightarrow> basic_plan)"
  using assms by (cases pr) (simp_all add: createProjectPlan_def Let_def)

lemma known_agent_cong:
  assumes "sub_ai_agents d' = sub_ai_agents d"
  shows "known_agent d' = known_agent d" "info_matches d' = info_matches d"
    "row_matches d' = row_matches d" "loads_after d' = loads_after d"
    "get_agent name d' = get_agent name d"
  using assms
  by (auto simp: known_agent_def info_matches_def row_matches_def loads_after_def
                 packages_for_def get_agent_def fun_eq_iff)

lemma delegateToSubAIs_spec:
  assumes "tk_id t \<in> task_pk ` set (tasks d)"
  shows "\<exists>infos rows d'.
           delegateToSubAIs U t plan d = (Inr infos, d') \<and>
           tasks d' = tasks (update_task (tk_id t)
                        (\<lambda>row. row\<lparr>task_status := TaskInProgress, task_updated_at := clock d\<rparr>) d) \<and>
           task_assignments d' = task_assignments d @ rows \<and>
           list_all2 (info_matches d) (filter (known_agent d) (workPackages plan)) infos \<and>
           list_all2 (row_matches d (tk_id t)) (filter (known_agent d) (workPackages plan)) rows \<and>
           sub_ai_agents d' = loads_after d (workPackages plan)"
proof -
  from delegate_packages_spec [OF assms, of U "workPackages plan"]
  obtain infos rows ups d1 where
    run: "delegate_packages U t (workPackages plan) d = (Inr infos, d1)"
    and fr: "tasks d1 = tasks d" "clock d1 = clock d"
    and ta: "task_assignments d1 = task_assignments d @ rows"
    and mi: "list_all2 (info_matches d) (filter (known_agent d) (workPackages plan)) infos"
    and mr: "list_all2 (row_matches d (tk_id t)) (filter (known_agent d) (workPackages plan)) rows"
    and ld: "sub_ai_agents d1 = loads_after d (workPackages plan)"
    by auto
  show ?thesis
    apply (rule exI [of _ infos])
    apply (rule exI [of _ rows])
    using run fr ta mi mr ld
    by (simp add: delegateToSubAIs_def update_task_def)
qed


lemma receiveTask_valid:
  fixes U input uid ttl d ur pr
  defines "t \<equiv> received_task U input d"
  defines "d1 \<equiv> accepted_store U input uid ttl d"
  defines "d2 \<equiv> snd (understandIntent ur (received_task U input d) (accepted_store U input uid ttl d))"
  defines "plan \<equiv> chosen_plan pr"
  assumes "in_userId input = Val (RowKey uid)" and "in_title input = Val ttl"
    and "uid \<in> user_pk ` set (users d)"
  shows "\<exists>infos rows d4.
           receiveTask U input ur pr d =
             (RtSuccess \<lparr>rc_taskId = tk_task_id t,
                         rc_understanding = fst (understandIntent ur t d1),
                         rc_projectPlan = plan, rc_assignments = infos\<rparr>,
              snd (monitorProgress U (tk_id t) d4)) \<and>
           tasks d4 = tasks (update_task (tk_id t)
                        (\<lambda>row. row\<lparr>task_status := TaskInProgress, task_updated_at := clock d\<rparr>) d2) \<and>
           task_assignments d4 = task_assignments d @ rows \<and>
           list_all2 (info_matches d) (filter (known_agent d) (workPackages plan)) infos \<and>
           list_all2 (row_matches d (tk_id t)) (filter (known_agent d) (workPackages plan)) rows \<and>
           sub_ai_agents d4 = loads_after d (workPackages plan) \<and>
           tk_id t \<in> task_pk ` set (tasks d4)"
proof -
  let ?u = "fst (understandIntent ur t d1)"
  let ?d3 = "snd (createProjectPlan U pr t ?u d2)"
  have ct: "createTask U input d = (Inr t, d1)"
    unfolding t_def d1_def received_task_def accepted_store_def
    by (rule createTask_ok [OF assms(5-7)])
  have pk1: "tk_id t \<in> task_pk ` set (tasks d1)"
    by (simp add: t_def d1_def received_task_def accepted_store_def new_task_def)
  have pk2: "tk_id t \<in> task_pk ` set (tasks d2)"
  proof -
    have "set (map task_pk (tasks d2)) = set (map task_pk (tasks d1))"
      unfolding d2_def t_def d1_def by (simp only: understandIntent_frame)
    with pk1 show ?thesis by simp
  qed
  have pk3: "tk_id t \<in> task_pk ` set (tasks ?d3)"
    using pk2 by (simp add: createProjectPlan_frame)
  have pl: "fst (createProjectPlan U pr t ?u d2) = plan"
    unfolding plan_def chosen_plan_def by (rule createProjectPlan_plan [OF pk2])
  have ag: "sub_ai_agents ?d3 = sub_ai_agents d"
    by (simp add: createProjectPlan_frame d2_def understandIntent_frame accepted_store_def)
  have ta3: "task_assignments ?d3 = task_assignments d"
    by (simp add: createProjectPlan_frame d2_def understandIntent_frame accepted_store_def)
  have ck3: "clock ?d3 = clock d"
    by (simp add: createProjectPlan_frame d2_def understandIntent_frame accepted_store_def)
  have tk3: "tasks ?d3 = tasks d2"
    by (simp add: createProjectPlan_frame)
  from delegateToSubAIs_spec [OF pk3, of U plan]
  obtain infos rows d4 where
    run: "delegateToSubAIs U t plan ?d3 = (Inr infos, d4)"
    and f4: "tasks d4 = tasks (update_task (tk_id t)
               (\<lambda>row. row\<lparr>task_status := TaskInProgress, task_updated_at := clock ?d3\<rparr>) ?d3)"
    and ta: "task_assignments d4 = task_assignments ?d3 @ rows"
    and mi: "list_all2 (info_matches ?d3) (filter (known_agent ?d3) (workPackages plan)) infos"
    and mr: "list_all2 (row_matches ?d3 (tk_id t)) (filter (known_agent ?d3) (workPackages plan)) rows"
    and ld: "sub_ai_agents d4 = loads_after ?d3 (workPackages plan)"
    by auto
  have rt: "receiveTask U input ur pr d =
             (RtSuccess \<lparr>rc_taskId = tk_task_id t, rc_understanding = ?u,
                         rc_projectPlan = plan, rc_assignments = infos\<rparr>,
              snd (monitorProgress U (tk_id t) d4))"
    unfolding receiveTask_def ct
    using run pl by (simp add: split_def d2_def t_def d1_def)
  have pk4: "tk_id t \<in> task_pk ` set (tasks d4)"
    unfolding f4 using pk3 by simp
  show ?thesis
    apply (rule exI [of _ infos])
    apply (rule exI [of _ rows])
    apply (rule exI [of _ d4])
    using rt f4 ta mi mr ld pk4
    by (simp add: known_agent_cong [OF ag] ta3 ck3 tk3 update_task_def)
qed


lemma in_assignments_of:
  "(a, s) \<in> set (assignments_of taskId d) \<longleftrightarrow>
     a \<in> set (task_assignments d) \<and> s \<in> set (sub_ai_agents d) \<and>
     asg_agent_id a = agent_pk s \<and> asg_task_id a = taskId"
  by (auto simp: assignments_of_def)

lemma open_assignment_blocks:
  assumes "(a, s) \<in> set (assignments_of taskId d)" and "asg_status a \<noteq> AsgCompleted"
  shows "\<not> (completed_of taskId d = total_of taskId d \<and> 0 < total_of taskId d)"
proof -
  have "length (filter (\<lambda>(a, s). asg_status a = AsgCompleted) (assignments_of taskId d))
          < length (assignments_of taskId d)"
    using assms by (intro length_filter_less [of "(a, s)"]) simp_all
  then show ?thesis
    by (simp add: completed_of_def total_of_def)
qed

lemma get_agent_member:
  assumes "get_agent name d = Some agent"
  shows "agent \<in> set (sub_ai_agents d)" and "agent_id agent = name"
  using assms by (auto simp: get_agent_def find_Some_iff)

lemma loads_after_member:
  assumes "agent \<in> set (sub_ai_agents d)"
  shows "\<exists>s \<in> set (loads_after d wps). agent_pk s = agent_pk agent"
  using assms by (force simp: loads_after_def)

lemma fresh_task_update:
  "tasks (update_task (next_pk (map task_pk (tasks d))) f (d'\<lparr>tasks := tasks d @ [row]\<rparr>)) =
     tasks d @ [if task_pk row = next_pk (map task_pk (tasks d)) then f row else row]"
proof -
  have "r \<in> set (tasks d) \<Longrightarrow> task_pk r \<noteq> next_pk (map task_pk (tasks d))" for r
    using next_pk_fresh [of "task_pk r" "map task_pk (tasks d)"] by auto
  then have "map (\<lambda>row. if task_pk row = next_pk (map task_pk (tasks d)) then f row else row)
               (tasks d) = tasks d"
    by (simp add: map_idI)
  then show ?thesis
    by (simp add: update_task_def)
qed

section \<open>Auxiliary facts about the agent coordinator\<close>

lemma analyzeAssignment_failed:
  "an_tasks (analyzeAssignment (CallFailed m) a) = Val (map general_task (assigned_elements a))"
  by (simp add: analyzeAssignment_def general_task_def)

lemma insert_work_bot_frame:
  assumes "insert_work_bot botId k pk ty ds d = Inr d'"
  shows "sub_ai_agents d' = sub_ai_agents d" "task_assignments d' = task_assignments d"
    "tasks d' = tasks d" "asg_has_updated_at d' = asg_has_updated_at d"
    "\<exists>row. work_bots d' = work_bots d @ [row]" "clock d' = clock d"
  using assms
  by (auto simp: insert_work_bot_def split: js.splits if_splits)

lemma create_bots_frame:
  "sub_ai_agents (snd (create_bots U ag a ts d)) = sub_ai_agents d \<and>
   task_assignments (snd (create_bots U ag a ts d)) = task_assignments d \<and>
   tasks (snd (create_bots U ag a ts d)) = tasks d \<and>
   asg_has_updated_at (snd (create_bots U ag a ts d)) = asg_has_updated_at d \<and>
   clock (snd (create_bots U ag a ts d)) = clock d"
proof (induction ts arbitrary: d)
  case Nil
  show ?case by simp
next
  case (Cons t ts)
  show ?case
  proof (cases "get_agent (sa_agentId ag) (draw_uuid d)")
    case None
    then show ?thesis by (simp add: Let_def)
  next
    case (Some s)
    show ?thesis
    proof (cases "insert_work_bot (''bot-'' @ U (uuid_count d)) (asg_pk a) (agent_pk s)
                    (ts_botType t) (ts_description t) (draw_uuid d)")
      case (Inl e)
      then show ?thesis using Some by (simp add: Let_def)
    next
      case (Inr d2)
      note fr = insert_work_bot_frame [OF Inr]
      obtain res d3 where c: "create_bots U ag a ts d2 = (res, d3)"
        by (cases "create_bots U ag a ts d2")
      from Cons.IH [of d2] show ?thesis
        using Some Inr fr(1-4) fr(6) c
        by (cases res) (simp_all add: Let_def)
    qed
  qed
qed

lemma create_bots_rows:
  "\<exists>rows. work_bots (snd (create_bots U ag a ts d)) = work_bots d @ rows \<and>
          length rows \<le> length ts \<and>
          (\<forall>bots. fst (create_bots U ag a ts d) = Inr bots \<longrightarrow>
                  length bots = length ts \<and> length rows = length ts)"
proof (induction ts arbitrary: d)
  case Nil
  show ?case by simp
next
  case (Cons t ts)
  show ?case
  proof (cases "get_agent (sa_agentId ag) (draw_uuid d)")
    case None
    then show ?thesis by (simp add: Let_def)
  next
    case (Some s)
    show ?thesis
    proof (cases "insert_work_bot (''bot-'' @ U (uuid_count d)) (asg_pk a) (agent_pk s)
                    (ts_botType t) (ts_description t) (draw_uuid d)")
      case (Inl e)
      then show ?thesis using Some by (simp add: Let_def)
    next
      case (Inr d2)
      from insert_work_bot_frame(5) [OF Inr] obtain row where
        r: "work_bots d2 = work_bots d @ [row]" by auto
      from Cons.IH [of d2] obtain rows where
        w: "work_bots (snd (create_bots U ag a ts d2)) = work_bots d2 @ rows"
        and l: "length rows \<le> length ts"
        and s: "\<And>bots. fst (create_bots U ag a ts d2) = Inr bots \<Longrightarrow>
                  length bots = length ts \<and> length rows = length ts"
        by blast
      obtain res d3 where c: "create_bots U ag a ts d2 = (res, d3)" by (cases "create_bots U ag a ts d2")
      have "work_bots (snd (create_bots U ag a (t # ts) d)) = work_bots d @ (row # rows)"
        using Some Inr w r c by (cases res) (simp_all add: Let_def)
      moreover have "length (row # rows) \<le> length (t # ts)" using l by simp
      moreover have "\<forall>bots. fst (create_bots U ag a (t # ts) d) = Inr bots \<longrightarrow>
                  length bots = length (t # ts) \<and> length (row # rows) = length (t # ts)"
        using Some Inr c s by (cases res) (auto simp add: Let_def)
      ultimately show ?thesis by blast
    qed
  qed
qed

lemma create_bots_fallback:
  assumes "get_agent (sa_agentId ag) d = Some s"
    and "asg_pk a \<in> asg_pk ` set (task_assignments d)"
  shows "\<exists>bots rows d'.
           create_bots U ag a (map general_task es) d = (Inr bots, d') \<and>
           map wb_type bots = map (\<lambda>e. Val ''general'') es \<and>
           map wb_description bots = map Val es \<and>
           work_bots d' = work_bots d @ rows \<and>
           map bot_type rows = map (\<lambda>e. ''general'') es \<and>
           map task_description rows = map Some es \<and>
           list_all (\<lambda>r. bot_status r = BotCreated \<and> bot_assignment_id r = asg_pk a \<and>
                          bot_agent_id r = agent_pk s) rows \<and>
           map bot_id rows = map wb_botId bots"
  using assms
proof (induction es arbitrary: d)
  case Nil
  show ?case by simp
next
  case (Cons e es)
  let ?d1 = "draw_uuid d"
  let ?row = "\<lparr>bot_pk = next_pk (map bot_pk (work_bots d)), bot_id = ''bot-'' @ U (uuid_count d),
               bot_assignment_id = asg_pk a, bot_agent_id = agent_pk s,
               bot_type = ''general'', task_description = Some e,
               bot_status = BotCreated, bot_result = None,
               bot_created_at = clock d, bot_started_at = None,
               bot_completed_at = None\<rparr>"
  let ?d2 = "?d1\<lparr>work_bots := work_bots ?d1 @ [?row]\<rparr>"
  have g1: "get_agent (sa_agentId ag) ?d1 = Some s"
    using Cons.prems(1) by (simp add: get_agent_def)
  have s: "agent_pk s \<in> set (map agent_pk (sub_ai_agents d))"
    using Cons.prems(1) unfolding get_agent_def
    by (auto simp: find_Some_iff)
  have ins: "insert_work_bot (''bot-'' @ U (uuid_count d)) (asg_pk a) (agent_pk s)
               (ts_botType (general_task e)) (ts_description (general_task e)) ?d1 = Inr ?d2"
    using Cons.prems(2) s by (simp add: insert_work_bot_def general_task_def)
  have g2: "get_agent (sa_agentId ag) ?d2 = Some s"
    using Cons.prems(1) by (simp add: get_agent_def)
  have a2: "asg_pk a \<in> asg_pk ` set (task_assignments ?d2)"
    using Cons.prems(2) by simp
  from Cons.IH [OF g2 a2] obtain bots rows d' where
    c: "create_bots U ag a (map general_task es) ?d2 = (Inr bots, d')"
    and p: "map wb_type bots = map (\<lambda>e. Val ''general'') es"
      "map wb_description bots = map Val es"
      "work_bots d' = work_bots ?d2 @ rows"
      "map bot_type rows = map (\<lambda>e. ''general'') es"
      "map task_description rows = map Some es"
      "list_all (\<lambda>r. bot_status r = BotCreated \<and> bot_assignment_id r = asg_pk a \<and>
                          bot_agent_id r = agent_pk s) rows"
      "map bot_id rows = map wb_botId bots"
    by blast
  let ?b = "\<lparr>wb_botId = ''bot-'' @ U (uuid_count d), wb_type = ts_botType (general_task e),
             wb_description = ts_description (general_task e),
             wb_expectedOutput = ts_expectedOutput (general_task e)\<rparr>"
  have "create_bots U ag a (map general_task (e # es)) d = (Inr (?b # bots), d')"
    using g1 ins c by (simp add: Let_def)
  moreover have "map wb_type (?b # bots) = map (\<lambda>e. Val ''general'') (e # es)"
    using p(1) by (simp add: general_task_def)
  moreover have "map wb_description (?b # bots) = map Val (e # es)"
    using p(2) by (simp add: general_task_def)
  moreover have "work_bots d' = work_bots d @ (?row # rows)"
    using p(3) by simp
  moreover have "map bot_type (?row # rows) = map (\<lambda>e. ''general'') (e # es)"
    using p(4) by simp
  moreover have "map task_description (?row # rows) = map Some (e # es)"
    using p(5) by simp
  moreover have "list_all (\<lambda>r. bot_status r = BotCreated \<and> bot_assignment_id r = asg_pk a \<and>
                          bot_agent_id r = agent_pk s) (?row # rows)"
    using p(6) by simp
  moreover have "map bot_id (?row # rows) = map wb_botId (?b # bots)"
    using p(7) by simp
  ultimately show ?case by blast
qed


lemma createWorkBots_cap:
  "\<exists>rows. work_bots (snd (createWorkBots U ag a an d)) = work_bots d @ rows \<and>
          length rows \<le> 5 \<and>
          (\<forall>bots ts. fst (createWorkBots U ag a an d) = Inr bots \<longrightarrow> an_tasks an = Val ts \<longrightarrow>
                     length bots = min 5 (length ts) \<and> length rows = min 5 (length ts))"
proof (cases "an_tasks an")
  case Undefined
  then show ?thesis by (simp add: createWorkBots_def)
next
  case Null
  then show ?thesis by (simp add: createWorkBots_def)
next
  case (Val ts)
  from create_bots_rows [of U ag a "take 5 ts" d] obtain rows where
    w: "work_bots (snd (create_bots U ag a (take 5 ts) d)) = work_bots d @ rows"
    and l: "length rows \<le> length (take 5 ts)"
    and s: "\<And>bots. fst (create_bots U ag a (take 5 ts) d) = Inr bots \<Longrightarrow>
              length bots = length (take 5 ts) \<and> length rows = length (take 5 ts)"
    by blast
  have e: "createWorkBots U ag a an d = create_bots U ag a (take 5 ts) d"
    using Val by (simp add: createWorkBots_def maxWorkBots_def)
  have "length rows \<le> 5" using l by simp
  moreover have "\<forall>bots ts'. fst (createWorkBots U ag a an d) = Inr bots \<longrightarrow> an_tasks an = Val ts' \<longrightarrow>
                     length bots = min 5 (length ts') \<and> length rows = min 5 (length ts')"
    using s Val unfolding e by (auto simp: min.commute)
  ultimately show ?thesis using w unfolding e by blast
qed

lemma createWorkBots_fallback:
  assumes "get_agent (sa_agentId ag) d = Some s"
    and "asg_pk a \<in> asg_pk ` set (task_assignments d)"
  shows "\<exists>bots rows d'.
           createWorkBots U ag a (analyzeAssignment (CallFailed m) a) d = (Inr bots, d') \<and>
           length bots = min 5 (length (assigned_elements a)) \<and>
           map wb_type bots = replicate (min 5 (length (assigned_elements a))) (Val ''general'') \<and>
           map wb_description bots = map Val (take 5 (assigned_elements a)) \<and>
           work_bots d' = work_bots d @ rows \<and>
           length rows = min 5 (length (assigned_elements a)) \<and>
           map bot_type rows = replicate (min 5 (length (assigned_elements a))) ''general'' \<and>
           map task_description rows = map Some (take 5 (assigned_elements a)) \<and>
           list_all (\<lambda>r. bot_status r = BotCreated \<and> bot_assignment_id r = asg_pk a) rows"
proof -
  let ?es = "take 5 (assigned_elements a)"
  have n: "length ?es = min 5 (length (assigned_elements a))" by (simp add: min.commute)
  have e: "createWorkBots U ag a (analyzeAssignment (CallFailed m) a) d =
             create_bots U ag a (map general_task ?es) d"
    by (simp add: createWorkBots_def analyzeAssignment_failed maxWorkBots_def take_map)
  from create_bots_fallback [OF assms, of U ?es] obtain bots rows d' where
    c: "create_bots U ag a (map general_task ?es) d = (Inr bots, d')"
    and p: "map wb_type bots = map (\<lambda>e. Val ''general'') ?es"
      "map wb_description bots = map Val ?es"
      "work_bots d' = work_bots d @ rows"
      "map bot_type rows = map (\<lambda>e. ''general'') ?es"
      "map task_description rows = map Some ?es"
      "list_all (\<lambda>r. bot_status r = BotCreated \<and> bot_assignment_id r = asg_pk a \<and>
                          bot_agent_id r = agent_pk s) rows"
    by blast
  have lb: "length bots = min 5 (length (assigned_elements a))"
    using arg_cong [OF p(2), of length] n by simp
  have lr: "length rows = min 5 (length (assigned_elements a))"
    using arg_cong [OF p(5), of length] n by simp
  have t1: "map wb_type bots = replicate (min 5 (length (assigned_elements a))) (Val ''general'')"
    unfolding p(1) map_replicate_const n ..
  have t2: "map bot_type rows = replicate (min 5 (length (assigned_elements a))) ''general''"
    unfolding p(4) map_replicate_const n ..
  have st: "list_all (\<lambda>r. bot_status r = BotCreated \<and> bot_assignment_id r = asg_pk a) rows"
    using p(6) by (simp add: list_all_iff)
  show ?thesis
    unfolding e c using lb lr t1 t2 p(2,3,5) st by blast
qed

lemma reportToAtlantis_assignments:
  "task_assignments (snd (reportToAtlantis U ag a d)) =
     task_assignments
       (update_assignment (asg_pk a)
          (\<lambda>r. r\<lparr>asg_status :=
                   (if length (filter (\<lambda>r. bot_status r = BotCompleted)
                                 (filter (\<lambda>r. bot_assignment_id r = asg_pk a) (work_bots d))) =
                       length (filter (\<lambda>r. bot_assignment_id r = asg_pk a) (work_bots d))
                    then AsgCompleted else AsgPartial),
                 asg_completed_at := Some (clock d)\<rparr>) d)"
  by (simp add: reportToAtlantis_def Let_def agent_addProgressUpdate_def addProgressUpdate_def
           split: option.splits)

lemma processAssignment_shipped_schema:
  "\<not> asg_has_updated_at d \<Longrightarrow>
   processAssignment U ag a ar rs d = (Inl (SqliteError ''no such column: updated_at''), d)"
  by (simp add: processAssignment_def process_steps_def updateAssignmentStatus_def)

lemma processAssignment_no_tasks:
  assumes "asg_has_updated_at d" and "an_tasks an = Undefined"
  shows "fst (processAssignment U ag a (Returned an) rs d) =
           Inr (ProcFailure (cannot_read ''undefined'' ''slice''))"
    and "sub_ai_agents (snd (processAssignment U ag a (Returned an) rs d)) = sub_ai_agents d"
    and "task_assignments (snd (processAssignment U ag a (Returned an) rs d)) =
           map (\<lambda>r. if asg_pk r = asg_pk a
                     then r\<lparr>asg_started_at := Some (clock d), asg_status := AsgFailed,
                            asg_updated_at := Some (clock d)\<rparr>
                     else r) (task_assignments d)"
  using assms
  by (simp_all add: processAssignment_def process_steps_def updateAssignmentStatus_def
        createWorkBots_def analyzeAssignment_def Let_def update_assignment_def comp_def)

lemma execute_bots_step:
  assumes "wb_description b = Val s" and "asg_task_id a \<in> task_pk ` set (tasks d)"
  shows "execute_bots U ag a rs i (b # bs) d =
           execute_bots U ag a rs (Suc i) bs
             ((draw_uuid (update_bot (wb_botId b) (ran (executeWorkBot ag b (rs i) (clock d)) (clock d)) d))
                \<lparr>progress_updates := progress_updates d @
                   [new_update U (asg_task_id a) ''sub-ai'' (wb_botId b)
                      (''Work bot completed: '' @ take 50 s @ ''...'')
                      None d]\<rparr>)"
proof -
  have u: "update_bot (wb_botId b)
             (\<lambda>r. r\<lparr>bot_status := BotCompleted,
                    bot_result := Some (executeWorkBot ag b (rs i) (clock d)),
                    bot_completed_at := Some (clock d)\<rparr>)
             (update_bot (wb_botId b)
                (\<lambda>r. r\<lparr>bot_status := BotRunning, bot_started_at := Some (clock d)\<rparr>) d) =
           update_bot (wb_botId b) (ran (executeWorkBot ag b (rs i) (clock d)) (clock d)) d"
    by (simp add: update_bot_def ran_def comp_def)
  have n: "new_update U (asg_task_id a) ''sub-ai'' (wb_botId b) msg None
             (update_bot (wb_botId b) f d) =
           new_update U (asg_task_id a) ''sub-ai'' (wb_botId b) msg None d" for msg f
    by (simp add: new_update_def)
  have t: "asg_task_id a \<in> task_pk ` set (tasks (update_bot (wb_botId b) f d))" for f
    using assms(2) by simp
  show ?thesis
    by (simp add: Let_def assms(1) agent_addProgressUpdate_def addProgressUpdate_ok [OF t] u n)
qed

lemma execute_bots_rows:
  assumes "\<forall>b\<in>set bs. \<exists>s. wb_description b = Val s"
    and "asg_task_id a \<in> task_pk ` set (tasks d)"
  shows "\<exists>g. work_bots (execute_bots U ag a rs i bs d) = map g (work_bots d) \<and>
             (\<forall>r. bot_id (g r) = bot_id r \<and> bot_assignment_id (g r) = bot_assignment_id r \<and>
                  (if bot_id r \<in> wb_botId ` set bs then bot_status (g r) = BotCompleted
                   else g r = r)) \<and>
             tasks (execute_bots U ag a rs i bs d) = tasks d \<and>
             task_assignments (execute_bots U ag a rs i bs d) = task_assignments d \<and>
             sub_ai_agents (execute_bots U ag a rs i bs d) = sub_ai_agents d \<and>
             clock (execute_bots U ag a rs i bs d) = clock d \<and>
             asg_has_updated_at (execute_bots U ag a rs i bs d) = asg_has_updated_at d"
  using assms
proof (induction bs arbitrary: d i)
  case Nil
  have "work_bots d = map (\<lambda>r. r) (work_bots d)" by simp
  then show ?case by (intro exI [of _ "\<lambda>r. r"]) simp
next
  case (Cons b bs)
  from Cons.prems(1) obtain s where s: "wb_description b = Val s" by auto
  let ?h = "ran (executeWorkBot ag b (rs i) (clock d)) (clock d)"
  let ?d4 = "(draw_uuid (update_bot (wb_botId b) ?h d))
                \<lparr>progress_updates := progress_updates d @
                   [new_update U (asg_task_id a) ''sub-ai'' (wb_botId b)
                      (''Work bot completed: '' @ take 50 s @ ''...'')
                      None d]\<rparr>"
  have st: "execute_bots U ag a rs i (b # bs) d = execute_bots U ag a rs (Suc i) bs ?d4"
    by (rule execute_bots_step [OF s Cons.prems(2)])
  have p1: "\<forall>b\<in>set bs. \<exists>s. wb_description b = Val s" using Cons.prems(1) by simp
  have p2: "asg_task_id a \<in> task_pk ` set (tasks ?d4)" using Cons.prems(2) by simp
  from Cons.IH [OF p1 p2, of "Suc i"] obtain g where
    w: "work_bots (execute_bots U ag a rs (Suc i) bs ?d4) = map g (work_bots ?d4)"
    and g: "\<And>r. bot_id (g r) = bot_id r \<and> bot_assignment_id (g r) = bot_assignment_id r \<and>
                  (if bot_id r \<in> wb_botId ` set bs then bot_status (g r) = BotCompleted
                   else g r = r)"
    and f: "tasks (execute_bots U ag a rs (Suc i) bs ?d4) = tasks ?d4"
      "task_assignments (execute_bots U ag a rs (Suc i) bs ?d4) = task_assignments ?d4"
      "sub_ai_agents (execute_bots U ag a rs (Suc i) bs ?d4) = sub_ai_agents ?d4"
      "clock (execute_bots U ag a rs (Suc i) bs ?d4) = clock ?d4"
      "asg_has_updated_at (execute_bots U ag a rs (Suc i) bs ?d4) = asg_has_updated_at ?d4"
    by blast
  let ?k = "\<lambda>r. if bot_id r = wb_botId b then ?h r else r"
  have wd: "work_bots ?d4 = map ?k (work_bots d)"
    by (simp add: update_bot_def)
  have k: "bot_id (?k r) = bot_id r \<and> bot_assignment_id (?k r) = bot_assignment_id r" for r
    by (simp add: ran_def)
  have ks: "bot_id r = wb_botId b \<Longrightarrow> bot_status (?k r) = BotCompleted" for r
    by (simp add: ran_def)
  have "work_bots (execute_bots U ag a rs i (b # bs) d) = map (\<lambda>r. g (?k r)) (work_bots d)"
    unfolding st w wd by simp
  moreover have "bot_id (g (?k r)) = bot_id r \<and> bot_assignment_id (g (?k r)) = bot_assignment_id r \<and>
                  (if bot_id r \<in> wb_botId ` set (b # bs) then bot_status (g (?k r)) = BotCompleted
                   else g (?k r) = r)" for r
  proof (cases "bot_id r \<in> wb_botId ` set bs")
    case True
    then have "bot_id (?k r) \<in> wb_botId ` set bs" using k [of r] by simp
    then have "bot_status (g (?k r)) = BotCompleted" using g [of "?k r"] by simp
    then show ?thesis using g [of "?k r"] k [of r] True by simp
  next
    case False
    then have "bot_id (?k r) \<notin> wb_botId ` set bs" using k [of r] by simp
    then have e: "g (?k r) = ?k r" using g [of "?k r"] by simp
    show ?thesis
    proof (cases "bot_id r = wb_botId b")
      case True
      then show ?thesis unfolding e using ks [OF True] k [of r] by simp
    next
      case ne: False
      then show ?thesis unfolding e using False by simp
    qed
  qed
  moreover have "tasks (execute_bots U ag a rs i (b # bs) d) = tasks d"
    unfolding st f by simp
  moreover have "task_assignments (execute_bots U ag a rs i (b # bs) d) = task_assignments d"
    unfolding st f by simp
  moreover have "sub_ai_agents (execute_bots U ag a rs i (b # bs) d) = sub_ai_agents d"
    unfolding st f by simp
  moreover have "clock (execute_bots U ag a rs i (b # bs) d) = clock d"
    unfolding st f by simp
  moreover have "asg_has_updated_at (execute_bots U ag a rs i (b # bs) d) = asg_has_updated_at d"
    unfolding st f by simp
  ultimately show ?case by blast
qed


lemma asg_pks_update_assignment:
  assumes "\<And>r. asg_pk (f r) = asg_pk r"
  shows "asg_pk ` set (task_assignments (update_assignment k f d)) =
           asg_pk ` set (task_assignments d)"
proof -
  have "map asg_pk (task_assignments (update_assignment k f d)) = map asg_pk (task_assignments d)"
    by (simp add: update_assignment_def assms)
  then have "set (map asg_pk (task_assignments (update_assignment k f d))) =
               set (map asg_pk (task_assignments d))" by simp
  then show ?thesis by simp
qed

lemma createWorkBots_failed_eq:
  "createWorkBots U ag a (analyzeAssignment (CallFailed m) a) d =
     create_bots U ag a (map general_task (take 5 (assigned_elements a))) d"
  by (simp add: createWorkBots_def analyzeAssignment_failed maxWorkBots_def take_map)

lemma filter_all: "list_all P xs \<Longrightarrow> filter P xs = xs"
  by (simp add: list_all_iff)

lemma filter_none: "list_all (\<lambda>x. \<not> P x) xs \<Longrightarrow> filter P xs = []"
  by (simp add: list_all_iff filter_empty_conv)

lemma processAssignment_fallback:
  assumes col: "asg_has_updated_at d"
    and agent: "get_agent (sa_agentId ag) d = Some s"
    and row: "asg_pk a \<in> asg_pk ` set (task_assignments d)"
    and task: "asg_task_id a \<in> task_pk ` set (tasks d)"
  shows "\<exists>old rows d'.
           processAssignment U ag a (CallFailed m) rs d =
             (Inr (ProcFailure count_query_error), d') \<and>
           work_bots d' = old @ rows \<and> length old = length (work_bots d) \<and>
           length rows = min 5 (length (assigned_elements a)) \<and>
           list_all (\<lambda>r. bot_assignment_id r = asg_pk a \<and> bot_status r = BotCompleted) rows \<and>
           task_assignments d' =
             map (\<lambda>r. if asg_pk r = asg_pk a
                       then r\<lparr>asg_started_at := Some (clock d), asg_status := AsgFailed,
                              asg_updated_at := Some (clock d)\<rparr>
                       else r) (task_assignments d) \<and>
           sub_ai_agents d' = sub_ai_agents d"
proof -
  let ?k = "asg_pk a"
  let ?n = "min 5 (length (assigned_elements a))"
  let ?es = "take 5 (assigned_elements a)"
  let ?d1 = "update_assignment ?k (\<lambda>r. r\<lparr>asg_status := AsgInProgress, asg_updated_at := Some (clock d)\<rparr>)
               (update_assignment ?k (\<lambda>r. r\<lparr>asg_started_at := Some (clock d)\<rparr>) d)"
  have n: "length ?es = ?n" by (simp add: min.commute)
  have u: "updateAssignmentStatus ?k AsgInProgress d = (Inr (), ?d1)"
    using col by (simp add: updateAssignmentStatus_def Let_def)
  have agent1: "get_agent (sa_agentId ag) ?d1 = Some s"
    using agent by (simp add: get_agent_def)
  have row1: "?k \<in> asg_pk ` set (task_assignments ?d1)"
    using row by (simp add: asg_pks_update_assignment)
  from create_bots_fallback [OF agent1 row1, of U ?es] obtain bots rows d2 where
    c: "create_bots U ag a (map general_task ?es) ?d1 = (Inr bots, d2)"
    and ds: "map wb_description bots = map Val ?es"
    and w2: "work_bots d2 = work_bots ?d1 @ rows"
    and ra: "list_all (\<lambda>r. bot_status r = BotCreated \<and> bot_assignment_id r = ?k \<and>
                          bot_agent_id r = agent_pk s) rows"
    and ids: "map bot_id rows = map wb_botId bots"
    by blast
  have cw: "createWorkBots U ag a (analyzeAssignment (CallFailed m) a) ?d1 = (Inr bots, d2)"
    unfolding createWorkBots_failed_eq by (rule c)
  have lb: "length bots = ?n"
    using arg_cong [OF ds, of length] n by simp
  have lr: "length rows = ?n"
    using arg_cong [OF ids, of length] lb by simp
  from create_bots_frame [of U ag a "map general_task ?es" ?d1]
  have f2: "sub_ai_agents d2 = sub_ai_agents d" "task_assignments d2 = task_assignments ?d1"
    "tasks d2 = tasks d" "clock d2 = clock d" "asg_has_updated_at d2"
    unfolding c using col by simp_all
  have descr: "\<forall>b\<in>set bots. \<exists>s. wb_description b = Val s"
  proof
    fix b assume "b \<in> set bots"
    then have "wb_description b \<in> set (map wb_description bots)" by simp
    then have "wb_description b \<in> set (map Val ?es)" unfolding ds .
    then show "\<exists>s. wb_description b = Val s" by auto
  qed
  have task2: "asg_task_id a \<in> task_pk ` set (tasks d2)" using task f2(3) by simp
  let ?d3 = "execute_bots U ag a rs 0 bots d2"
  from execute_bots_rows [OF descr task2, of U ag rs 0] obtain g where
    w3: "work_bots ?d3 = map g (work_bots d2)"
    and g: "\<And>r. bot_id (g r) = bot_id r \<and> bot_assignment_id (g r) = bot_assignment_id r \<and>
                  (if bot_id r \<in> wb_botId ` set bots then bot_status (g r) = BotCompleted
                   else g r = r)"
    and f3: "task_assignments ?d3 = task_assignments d2"
      "sub_ai_agents ?d3 = sub_ai_agents d2" "clock ?d3 = clock d2"
      "asg_has_updated_at ?d3 = asg_has_updated_at d2"
    by blast
  let ?old = "map g (work_bots d)"
  let ?new = "map g rows"
  have w3': "work_bots ?d3 = ?old @ ?new"
    unfolding w3 w2 by simp
  have idset: "bot_id ` set rows = wb_botId ` set bots"
    using arg_cong [OF ids, of set] by simp
  have nw: "list_all (\<lambda>r. bot_assignment_id r = ?k \<and> bot_status r = BotCompleted) ?new"
    unfolding list_all_iff
  proof
    fix x assume "x \<in> set ?new"
    then obtain r where r: "r \<in> set rows" and x: "x = g r" by auto
    from r ra have a: "bot_assignment_id r = ?k" by (simp add: list_all_iff)
    from r idset have "bot_id r \<in> wb_botId ` set bots" by blast
    then have "bot_status (g r) = BotCompleted" using g [of r] by simp
    then show "bot_assignment_id x = ?k \<and> bot_status x = BotCompleted"
      unfolding x using g [of r] a by simp
  qed
  have x: "executeWorkBots U ag bots a rs d2 = (Inl count_query_error, ?d3)"
    by (simp add: executeWorkBots_def)
  let ?X = "update_assignment ?k
              (\<lambda>r. r\<lparr>asg_status := AsgFailed, asg_updated_at := Some (clock d)\<rparr>) ?d3"
  have col3: "asg_has_updated_at ?d3" using f3(4) f2(5) by simp
  have ck3: "clock ?d3 = clock d" using f3(3) f2(4) by simp
  have fl: "updateAssignmentStatus ?k AsgFailed ?d3 = (Inr (), ?X)"
    using col3 by (simp add: updateAssignmentStatus_def Let_def ck3)
  have ps: "process_steps U ag a (CallFailed m) rs d = (Inl count_query_error, ?d3)"
    unfolding process_steps_def u by (simp add: cw x)
  have pa: "processAssignment U ag a (CallFailed m) rs d =
              (Inr (ProcFailure count_query_error), ?X)"
    unfolding processAssignment_def ps by (simp add: fl)
  have wx: "work_bots ?X = ?old @ ?new"
    using w3' by simp
  have lo: "length ?old = length (work_bots d)" by simp
  have ln: "length ?new = ?n" using lr by simp
  have tx: "task_assignments ?X =
             map (\<lambda>r. if asg_pk r = asg_pk a
                       then r\<lparr>asg_started_at := Some (clock d), asg_status := AsgFailed,
                              asg_updated_at := Some (clock d)\<rparr>
                       else r) (task_assignments d)"
    by (simp add: update_assignment_def f3(1) f2(2))
  have sx: "sub_ai_agents ?X = sub_ai_agents d"
    by (simp add: f3(2) f2(1))
  show ?thesis
    by (rule exI [of _ ?old], rule exI [of _ ?new], rule exI [of _ ?X])
       (intro conjI pa wx lo ln nw tx sx)
qed

text \<open>
  The frame of the loop of \<open>executeWorkBots\<close>, whatever its bots are, and of
  \<open>createWorkBots\<close>: neither touches the registry of agents.
\<close>

lemma execute_bots_frame:
  "sub_ai_agents (execute_bots U ag a rs i bs d) = sub_ai_agents d \<and>
   asg_has_updated_at (execute_bots U ag a rs i bs d) = asg_has_updated_at d"
proof (induction bs arbitrary: d i)
  case Nil
  show ?case by simp
next
  case (Cons b bs)
  show ?case
    by (simp add: Let_def Cons.IH agent_addProgressUpdate_def addProgressUpdate_def
             split: js.splits)
qed

lemma createWorkBots_frame:
  "sub_ai_agents (snd (createWorkBots U ag a an d)) = sub_ai_agents d \<and>
   asg_has_updated_at (snd (createWorkBots U ag a an d)) = asg_has_updated_at d"
  using create_bots_frame [of U ag a _ d]
  by (cases "an_tasks an") (simp_all add: createWorkBots_def)

lemma updateAssignmentStatus_frame:
  "sub_ai_agents (snd (updateAssignmentStatus k st d)) = sub_ai_agents d \<and>
   asg_has_updated_at (snd (updateAssignmentStatus k st d)) = asg_has_updated_at d"
  by (simp add: updateAssignmentStatus_def Let_def)

text \<open>
  \<open>processAssignment\<close> decrements no load, on any input: \<open>reportToAtlantis\<close>, the only
  place that does, stands behind \<open>executeWorkBots\<close>, which always throws.
\<close>

lemma processAssignment_keeps_loads:
  "sub_ai_agents (snd (processAssignment U ag a ar rs d)) = sub_ai_agents d"
proof -
  obtain r1 d1 where s1: "updateAssignmentStatus (asg_pk a) AsgInProgress d = (r1, d1)"
    by (cases "updateAssignmentStatus (asg_pk a) AsgInProgress d")
  have f1: "sub_ai_agents d1 = sub_ai_agents d"
    using updateAssignmentStatus_frame [of "asg_pk a" AsgInProgress d] unfolding s1 by simp
  obtain r2 d2 where s2: "createWorkBots U ag a (analyzeAssignment ar a) d1 = (r2, d2)"
    by (cases "createWorkBots U ag a (analyzeAssignment ar a) d1")
  have f2: "sub_ai_agents d2 = sub_ai_agents d1"
    using createWorkBots_frame [of U ag a "analyzeAssignment ar a" d1] unfolding s2 by simp
  have f3: "sub_ai_agents (execute_bots U ag a rs 0 bots d2) = sub_ai_agents d2" for bots
    using execute_bots_frame [of U ag a rs 0 bots d2] by simp
  have f4: "sub_ai_agents (snd (updateAssignmentStatus (asg_pk a) AsgFailed d')) =
              sub_ai_agents d'" for d'
    using updateAssignmentStatus_frame [of "asg_pk a" AsgFailed d'] by simp
  obtain e d3 where ps: "process_steps U ag a ar rs d = (Inl e, d3)"
    and f: "sub_ai_agents d3 = sub_ai_agents d"
  proof (cases r1)
    case (Inl e1)
    then have "process_steps U ag a ar rs d = (Inl e1, d1)"
      by (simp add: process_steps_def s1)
    then show ?thesis using that f1 by blast
  next
    case (Inr u1)
    show ?thesis
    proof (cases r2)
      case (Inl e2)
      then have "process_steps U ag a ar rs d = (Inl e2, d2)"
        using Inr by (simp add: process_steps_def s1 s2)
      then show ?thesis using that f1 f2 by simp
    next
      case (Inr bots)
      then have "process_steps U ag a ar rs d =
                   (Inl count_query_error, execute_bots U ag a rs 0 bots d2)"
        using \<open>r1 = Inr u1\<close> by (simp add: process_steps_def s1 s2 executeWorkBots_def)
      then show ?thesis using that f1 f2 f3 [of bots] by simp
    qed
  qed
  obtain r4 d4 where s4: "updateAssignmentStatus (asg_pk a) AsgFailed d3 = (r4, d4)"
    by (cases "updateAssignmentStatus (asg_pk a) AsgFailed d3")
  have "sub_ai_agents d4 = sub_ai_agents d3"
    using f4 [of d3] unfolding s4 by simp
  then show ?thesis
    unfolding processAssignment_def ps using f by (cases r4) (simp_all add: s4)
qed

lemma processAssignment_no_bots:
  assumes "asg_has_updated_at d" and "an_tasks an = Val []"
  shows "fst (processAssignment U ag a (Returned an) rs d) =
           Inr (ProcFailure count_query_error)"
    and "work_bots (snd (processAssignment U ag a (Returned an) rs d)) = work_bots d"
    and "task_assignments (snd (processAssignment U ag a (Returned an) rs d)) =
           map (\<lambda>r. if asg_pk r = asg_pk a
                     then r\<lparr>asg_started_at := Some (clock d), asg_status := AsgFailed,
                            asg_updated_at := Some (clock d)\<rparr>
                     else r) (task_assignments d)"
  using assms
  by (simp_all add: processAssignment_def process_steps_def updateAssignmentStatus_def
        createWorkBots_def analyzeAssignment_def executeWorkBots_def Let_def
        update_assignment_def comp_def)

lemma map_const_replicate:
  "list_all (\<lambda>r. f r = c) xs \<Longrightarrow> map f xs = replicate (length xs) c"
  by (induction xs) simp_all

lemma migrated_store_agent:
  "get_agent (sa_agentId code_architect) migrated_store =
     Some \<lparr>agent_pk = 1, agent_id = ''sub-ai-code'', agent_name = ''Code Architect'',
           agent_specialization = ''Code Development'',
           agent_expertise_areas = [''JavaScript''], agent_status = ''active'',
           current_load = 1, max_capacity = 10\<rparr>"
  by code_simp

lemma four_store_agent:
  "get_agent (sa_agentId code_architect) four_store =
     Some \<lparr>agent_pk = 1, agent_id = ''sub-ai-code'', agent_name = ''Code Architect'',
           agent_specialization = ''Code Development'',
           agent_expertise_areas = [''JavaScript''], agent_status = ''active'',
           current_load = 1, max_capacity = 10\<rparr>"
  by code_simp

section \<open>Properties of the status query\<close>











section \<open>Properties of task intake\<close>

text \<open>
  Claim C4. When \<open>title\<close> or \<open>userId\<close> is missing from the input (\<open>undefined\<close> or
  \<open>null\<close>), \<open>receiveTask\<close> fails: it resolves to the failure value \<open>{success: false, error}\<close>
  carrying the store's rejection of the insert, and no task row (nor any other row) is
  created. The code has no error class of its own; the rejection of the missing field
  is the one the claim calls a validation error.
\<close>

theorem receiveTask_missing_required_field:
  assumes "in_title input = Undefined \<or> in_title input = Null \<or>
           in_userId input = Undefined \<or> in_userId input = Null"
  shows "\<exists>e d'. receiveTask U input ur pr d = (RtFailure e, d') \<and>
           (e = SqliteError ''NOT NULL constraint failed: tasks.user_id'' \<or>
            e = SqliteError ''NOT NULL constraint failed: tasks.title'') \<and>
           tasks d' = tasks d \<and> users d' = users d \<and>
           task_assignments d' = task_assignments d \<and>
           sub_ai_agents d' = sub_ai_agents d \<and> work_bots d' = work_bots d \<and>
           project_plans d' = project_plans d \<and> progress_updates d' = progress_updates d"
  using assms
  by (cases "in_userId input"; cases "in_title input")
     (auto simp: receiveTask_def createTask_def draw_uuid_def Let_def)

theorem receiveTask_missing_required_field_witness:
  "in_title (demo_input\<lparr>in_title := Undefined\<rparr>) = Undefined \<and>
   (\<exists>e d'. receiveTask show_nat (demo_input\<lparr>in_title := Undefined\<rparr>)
              (CallFailed ''down'') (CallFailed ''down'') demo_store = (RtFailure e, d') \<and>
            tasks d' = tasks demo_store)"
proof -
  have h: "in_title (demo_input\<lparr>in_title := Undefined\<rparr>) = Undefined"
    by simp
  then show ?thesis
    using receiveTask_missing_required_field
            [of "demo_input\<lparr>in_title := Undefined\<rparr>" show_nat "CallFailed ''down''"
                "CallFailed ''down''" demo_store]
    by blast
qed

text \<open>
  Claim C5. When \<open>userId\<close> is the key of a registered user's row (what the route
  \<open>POST /api/tasks\<close> passes after it has looked up or created the user \<open>"u1"\<close>), the
  input carries a title, the registry has the agent \<open>'sub-ai-code'\<close>, and both calls of
  the reasoning collaborator fail, \<open>receiveTask\<close> resolves to the success value: the
  understanding is the fallback
  \<open>{primaryIntent: description, complexity: 'Moderate', requiredExpertise: ['General']}\<close>,
  the plan is the basic plan, exactly one assignment is created (for the single default
  work package, status \<open>'assigned'\<close>), and the one new task row ends with status
  \<open>'in-progress'\<close>.
\<close>

theorem receiveTask_all_calls_fail:
  assumes "in_userId input = Val (RowKey uid)" and "in_title input = Val ttl"
    and "uid \<in> user_pk ` set (users d)"
    and "get_agent ''sub-ai-code'' d = Some agent"
  shows "\<exists>rc i r row.
           fst (receiveTask U input (CallFailed m1) (CallFailed m2) d) = RtSuccess rc \<and>
           rc_understanding rc =
             \<lparr>primaryIntent = in_description input, complexity = Val ''Moderate'',
              requiredExpertise = Val [''General'']\<rparr> \<and>
           rc_projectPlan rc = basic_plan \<and>
           rc_assignments rc = [i] \<and> ai_agentName i = agent_name agent \<and>
           ai_workPackage i = ''Complete task'' \<and> ai_elements i = [''Main implementation''] \<and>
           task_assignments (snd (receiveTask U input (CallFailed m1) (CallFailed m2) d)) =
             task_assignments d @ [r] \<and>
           asg_status r = AsgAssigned \<and> asg_agent_id r = agent_pk agent \<and>
           asg_task_id r = task_pk row \<and> assigned_elements r = [''Main implementation''] \<and>
           tasks (snd (receiveTask U input (CallFailed m1) (CallFailed m2) d)) =
             tasks d @ [row] \<and>
           task_id row = rc_taskId rc \<and> task_status row = TaskInProgress \<and>
           task_title row = ttl \<and> task_user_id row = uid"
proof -
  let ?t = "received_task U input d"
  let ?wp = "\<lparr>wp_id = ''wp-1'', wp_name = ''Complete task'', assignedTo = ''sub-ai-code'',
              elements = [''Main implementation'']\<rparr>"
  let ?row = "(new_task U input uid ttl d)\<lparr>task_status := TaskInProgress,
                                              task_updated_at := clock d\<rparr>"
  have tid: "tk_id ?t = next_pk (map task_pk (tasks d))"
    by (simp add: received_task_def)
  have wps: "workPackages basic_plan = [?wp]"
    by (simp add: basic_plan_def)
  have kn: "filter (known_agent d) [?wp] = [?wp]"
    using assms(4) by (simp add: known_agent_def)
  have ti: "tk_input ?t = input"
    by (simp add: received_task_def)
  note V = receiveTask_valid [OF assms(1-3), of U "CallFailed m1" "CallFailed m2",
             unfolded chosen_plan_def understandIntent_failed reply.case wps kn
                      fst_conv snd_conv ti]
  from V obtain infos rows d4 where
    rt: "receiveTask U input (CallFailed m1) (CallFailed m2) d =
           (RtSuccess \<lparr>rc_taskId = tk_task_id ?t,
                       rc_understanding =
                         \<lparr>primaryIntent = in_description input, complexity = Val ''Moderate'',
                          requiredExpertise = Val [''General'']\<rparr>,
                       rc_projectPlan = basic_plan, rc_assignments = infos\<rparr>,
            snd (monitorProgress U (tk_id ?t) d4))"
    and tk: "tasks d4 = tasks (update_task (tk_id ?t)
               (\<lambda>row. row\<lparr>task_status := TaskInProgress, task_updated_at := clock d\<rparr>)
               (accepted_store U input uid ttl d))"
    and ta: "task_assignments d4 = task_assignments d @ rows"
    and mi: "list_all2 (info_matches d) [?wp] infos"
    and mr: "list_all2 (row_matches d (tk_id ?t)) [?wp] rows"
    and ld: "sub_ai_agents d4 = loads_after d [?wp]"
    and pk: "tk_id ?t \<in> task_pk ` set (tasks d4)"
    by blast
  from mi obtain i where i: "infos = [i]" "info_matches d ?wp i"
    by (auto simp: list_all2_Cons1)
  from mr obtain r where r: "rows = [r]" "row_matches d (tk_id ?t) ?wp r"
    by (auto simp: list_all2_Cons1)
  have tk': "tasks d4 = tasks d @ [?row]"
    unfolding tk tid accepted_store_def
    by (subst fresh_task_update) (simp add: new_task_def)
  obtain s where s: "s \<in> set (sub_ai_agents d4)" "agent_pk s = agent_pk agent"
    using loads_after_member [OF get_agent_member(1) [OF assms(4)], of "[?wp]"] ld by auto
  have "(r, s) \<in> set (assignments_of (tk_id ?t) d4)"
    using r s assms(4) by (simp add: in_assignments_of ta row_matches_def)
  moreover have "asg_status r \<noteq> AsgCompleted"
    using r by (simp add: row_matches_def)
  ultimately have nf: "\<not> (completed_of (tk_id ?t) d4 = total_of (tk_id ?t) d4 \<and>
                          0 < total_of (tk_id ?t) d4)"
    by (rule open_assignment_blocks)
  have fin: "tasks (snd (monitorProgress U (tk_id ?t) d4)) = tasks d4"
    by (simp add: monitorProgress_not_all [OF pk nf])
  show ?thesis
    apply (rule exI [of _ "\<lparr>rc_taskId = tk_task_id ?t,
                       rc_understanding =
                         \<lparr>primaryIntent = in_description input, complexity = Val ''Moderate'',
                          requiredExpertise = Val [''General'']\<rparr>,
                       rc_projectPlan = basic_plan, rc_assignments = infos\<rparr>"])
    apply (rule exI [of _ i])
    apply (rule exI [of _ r])
    apply (rule exI [of _ ?row])
    using i r assms(4) ta fin tk' monitorProgress_frame(1) [OF pk, of U]
    by (simp add: rt info_matches_def row_matches_def new_task_def received_task_def)
qed

lemma demo_store_code_architect:
  "get_agent ''sub-ai-code'' demo_store = Some code_architect_row"
  by code_simp

lemma demo_store_users: "map user_pk (users demo_store) = [1]"
  by code_simp

lemma demo_user_known: "1 \<in> user_pk ` set (users demo_store)"
proof -
  have "1 \<in> set (map user_pk (users demo_store))"
    unfolding demo_store_users by simp
  then show ?thesis by simp
qed

theorem receiveTask_all_calls_fail_witness:
  "in_userId demo_input = Val (RowKey 1) \<and> in_title demo_input = Val ''Build API'' \<and>
   1 \<in> user_pk ` set (users demo_store) \<and>
   get_agent ''sub-ai-code'' demo_store = Some code_architect_row \<and>
   (\<exists>rc i row.
      fst (receiveTask show_nat demo_input (CallFailed ''down'') (CallFailed ''down'') demo_store) =
        RtSuccess rc \<and>
      rc_understanding rc =
        \<lparr>primaryIntent = Val ''...'', complexity = Val ''Moderate'',
         requiredExpertise = Val [''General'']\<rparr> \<and>
      rc_assignments rc = [i] \<and> ai_agentName i = ''Code Architect'' \<and>
      tasks (snd (receiveTask show_nat demo_input (CallFailed ''down'') (CallFailed ''down'')
                    demo_store)) = tasks demo_store @ [row] \<and>
      task_status row = TaskInProgress)"
proof -
  have h1: "in_userId demo_input = Val (RowKey 1)" and h2: "in_title demo_input = Val ''Build API''"
    and h3: "in_description demo_input = Val ''...''"
    by (simp_all add: demo_input_def)
  have nm: "agent_name code_architect_row = ''Code Architect''"
    by (simp add: code_architect_row_def)
  from receiveTask_all_calls_fail
         [OF h1 h2 demo_user_known demo_store_code_architect, of show_nat "''down''" "''down''"]
  obtain rc i r row where
    "fst (receiveTask show_nat demo_input (CallFailed ''down'') (CallFailed ''down'') demo_store) =
        RtSuccess rc"
    "rc_understanding rc =
        \<lparr>primaryIntent = in_description demo_input, complexity = Val ''Moderate'',
         requiredExpertise = Val [''General'']\<rparr>"
    "rc_assignments rc = [i]" "ai_agentName i = agent_name code_architect_row"
    "tasks (snd (receiveTask show_nat demo_input (CallFailed ''down'') (CallFailed ''down'')
                   demo_store)) = tasks demo_store @ [row]"
    "task_status row = TaskInProgress"
    by blast
  then show ?thesis
    using h1 h2 demo_user_known demo_store_code_architect
    unfolding h3 nm by blast
qed

text \<open>
  Called as the specification writes it, with the user's name \<open>"u1"\<close> in \<open>userId\<close>,
  \<open>receiveTask\<close> does not succeed, even though the user \<open>u1\<close> is registered: the name is
  the key of no \<open>users\<close> row, the insert fails the foreign key of \<open>tasks.user_id\<close>, and the
  call resolves to \<open>{success: false, error}\<close> with no task created.
\<close>

lemma receiveTask_no_such_user:
  assumes "in_userId input = Val u" and "stored_key u = None" and "in_title input = Val ttl"
  shows "receiveTask U input ur pr d = (RtFailure fk_error, draw_uuid d)"
  using assms by (simp add: receiveTask_def createTask_def Let_def)

theorem receiveTask_user_name_rejected:
  "map github_username (users demo_store) = [''u1''] \<and>
   in_userId named_input = Val (UserName ''u1'') \<and>
   fst (receiveTask show_nat named_input (CallFailed ''down'') (CallFailed ''down'') demo_store) =
     RtFailure (SqliteError ''FOREIGN KEY constraint failed'') \<and>
   tasks (snd (receiveTask show_nat named_input (CallFailed ''down'') (CallFailed ''down'')
                 demo_store)) = []"
proof -
  have u: "in_userId named_input = Val (UserName ''u1'')"
    and t: "in_title named_input = Val ''Build API''"
    by (simp_all add: named_input_def demo_input_def)
  have k: "stored_key (UserName ''u1'') = None"
    by code_simp
  have n: "map github_username (users demo_store) = [''u1'']"
    by (simp add: demo_store_def)
  have e: "tasks (draw_uuid demo_store) = []"
    by code_simp
  show ?thesis
    unfolding receiveTask_no_such_user [OF u k t] fst_conv snd_conv e
    by (intro conjI n u refl) (simp add: fk_error_def)
qed

text \<open>
  Claim C6. When the plan comes back from the collaborator, \<open>receiveTask\<close> creates one
  assignment for each work package whose \<open>assignedTo\<close> names an agent of the registry, in
  the order of the plan, and skips the others without aborting: the returned list and
  the new assignment rows correspond one to one to the packages with a known agent, and
  each agent's load grows by the number of packages delegated to it. (The code writes
  the warning to the console only.)
\<close>

theorem receiveTask_drops_unknown_agents:
  assumes "in_userId input = Val (RowKey uid)" and "in_title input = Val ttl"
    and "uid \<in> user_pk ` set (users d)"
  shows "\<exists>rc rows.
           fst (receiveTask U input ur (Returned plan) d) = RtSuccess rc \<and>
           rc_projectPlan rc = plan \<and>
           list_all2 (info_matches d) (filter (known_agent d) (workPackages plan))
             (rc_assignments rc) \<and>
           length (rc_assignments rc) = length (filter (known_agent d) (workPackages plan)) \<and>
           task_assignments (snd (receiveTask U input ur (Returned plan) d)) =
             task_assignments d @ rows \<and>
           list_all2 (row_matches d (next_pk (map task_pk (tasks d))))
             (filter (known_agent d) (workPackages plan)) rows \<and>
           length rows = length (filter (known_agent d) (workPackages plan)) \<and>
           sub_ai_agents (snd (receiveTask U input ur (Returned plan) d)) =
             loads_after d (workPackages plan)"
proof -
  let ?t = "received_task U input d"
  have tid: "tk_id ?t = next_pk (map task_pk (tasks d))"
    by (simp add: received_task_def)
  from receiveTask_valid [OF assms, of U ur "Returned plan"]
  obtain infos rows d4 where
    rt: "receiveTask U input ur (Returned plan) d =
           (RtSuccess \<lparr>rc_taskId = tk_task_id ?t,
                       rc_understanding =
                         fst (understandIntent ur ?t (accepted_store U input uid ttl d)),
                       rc_projectPlan = plan, rc_assignments = infos\<rparr>,
            snd (monitorProgress U (tk_id ?t) d4))"
    and ta: "task_assignments d4 = task_assignments d @ rows"
    and mi: "list_all2 (info_matches d) (filter (known_agent d) (workPackages plan)) infos"
    and mr: "list_all2 (row_matches d (tk_id ?t)) (filter (known_agent d) (workPackages plan)) rows"
    and ld: "sub_ai_agents d4 = loads_after d (workPackages plan)"
    and pk: "tk_id ?t \<in> task_pk ` set (tasks d4)"
    unfolding chosen_plan_def by auto
  have l1: "length infos = length (filter (known_agent d) (workPackages plan))"
    using mi by (simp add: list_all2_lengthD)
  have l2: "length rows = length (filter (known_agent d) (workPackages plan))"
    using mr by (simp add: list_all2_lengthD)
  show ?thesis
    apply (rule exI [of _ "\<lparr>rc_taskId = tk_task_id ?t,
                       rc_understanding =
                         fst (understandIntent ur ?t (accepted_store U input uid ttl d)),
                       rc_projectPlan = plan, rc_assignments = infos\<rparr>"])
    apply (rule exI [of _ rows])
    using ta mi mr ld l1 l2 monitorProgress_frame [OF pk, of U]
    by (simp add: rt tid)
qed

lemma three_packages_known:
  "map wp_name (filter (known_agent demo_store) (workPackages three_packages)) =
     [''Server'', ''Tests'']"
  by code_simp

lemma three_packages_loads:
  "map current_load (loads_after demo_store (workPackages three_packages)) =
     [1, 0, 1, 0, 0, 0, 0, 0, 0, 0, 0, 0]"
  by code_simp

theorem receiveTask_drops_unknown_agents_witness:
  "in_userId demo_input = Val (RowKey 1) \<and> in_title demo_input = Val ''Build API'' \<and>
   1 \<in> user_pk ` set (users demo_store) \<and>
   (\<exists>rc rows.
      fst (receiveTask show_nat demo_input (CallFailed ''down'') (Returned three_packages)
             demo_store) = RtSuccess rc \<and>
      length (rc_assignments rc) = 2 \<and>
      task_assignments (snd (receiveTask show_nat demo_input (CallFailed ''down'')
                               (Returned three_packages) demo_store)) =
        task_assignments demo_store @ rows \<and>
      length rows = 2 \<and>
      map current_load
        (sub_ai_agents (snd (receiveTask show_nat demo_input (CallFailed ''down'')
                               (Returned three_packages) demo_store))) =
        [1, 0, 1, 0, 0, 0, 0, 0, 0, 0, 0, 0])"
proof -
  have h1: "in_userId demo_input = Val (RowKey 1)" and h2: "in_title demo_input = Val ''Build API''"
    by (simp_all add: demo_input_def)
  have two: "length (filter (known_agent demo_store) (workPackages three_packages)) = 2"
    using arg_cong [OF three_packages_known, of length] by simp
  from receiveTask_drops_unknown_agents
         [OF h1 h2 demo_user_known, of show_nat "CallFailed ''down''" three_packages]
  obtain rc rows where
    "fst (receiveTask show_nat demo_input (CallFailed ''down'') (Returned three_packages)
            demo_store) = RtSuccess rc"
    "length (rc_assignments rc) =
       length (filter (known_agent demo_store) (workPackages three_packages))"
    "task_assignments (snd (receiveTask show_nat demo_input (CallFailed ''down'')
                              (Returned three_packages) demo_store)) =
       task_assignments demo_store @ rows"
    "length rows = length (filter (known_agent demo_store) (workPackages three_packages))"
    "sub_ai_agents (snd (receiveTask show_nat demo_input (CallFailed ''down'')
                           (Returned three_packages) demo_store)) =
       loads_after demo_store (workPackages three_packages)"
    by blast
  then show ?thesis
    using h1 h2 demo_user_known unfolding two
    by (metis three_packages_loads)
qed

section \<open>Properties of the progress check\<close>

text \<open>
  Claim C3. Take a stored task in a store where every assignment names exactly one
  agent row, and let \<open>mine\<close> be the assignments of the task. \<open>monitorProgress\<close> returns
  the number of completed ones, their total and \<open>Math.round((completed / total) * 100)\<close>
  (0 when there is none), and it never sets a completed task back. Exactly when \<open>mine\<close>
  is not empty and each of its rows has status \<open>'completed'\<close>, it finalizes the task: the
  row gets status \<open>'completed'\<close> and \<open>completed_at\<close> and \<open>updated_at\<close> stamped with the
  current time, and after the summary update a second update with 100 percent and the
  completion message is written; the returned progress is 100. Otherwise every task row
  stays as it is and the summary is the only update. Once all assignments are completed,
  any number of further calls, at any clock readings, return that same report without
  an error, and the task is completed after them.
\<close>

theorem monitorProgress_finalizes_when_all_completed:
  fixes U :: "nat \<Rightarrow> string" and taskId :: nat and d :: db
  defines "mine \<equiv> filter (\<lambda>a. asg_task_id a = taskId) (task_assignments d)"
  defines "finished \<equiv> filter (\<lambda>a. asg_status a = AsgCompleted) mine"
  assumes stored: "taskId \<in> task_pk ` set (tasks d)"
    and agents: "\<forall>a\<in>set (task_assignments d).
                   length (filter (\<lambda>s. agent_pk s = asg_agent_id a) (sub_ai_agents d)) = 1"
  shows "fst (monitorProgress U taskId d) =
           Inr \<lparr>pr_completed = length finished, pr_total = length mine,
                pr_progress = (if mine = [] then 0
                               else round_percent (length finished) (length mine))\<rparr> \<and>
         list_all2 (\<lambda>row row'. task_pk row' = task_pk row \<and>
                      (task_status row = TaskCompleted \<longrightarrow> task_status row' = TaskCompleted))
           (tasks d) (tasks (snd (monitorProgress U taskId d))) \<and>
         (if mine \<noteq> [] \<and> (\<forall>a\<in>set mine. asg_status a = AsgCompleted)
          then fst (monitorProgress U taskId d) =
                 Inr \<lparr>pr_completed = length mine, pr_total = length mine, pr_progress = 100\<rparr> \<and>
               tasks (snd (monitorProgress U taskId d)) =
                 map (\<lambda>row. if task_pk row = taskId
                             then row\<lparr>task_status := TaskCompleted,
                                      task_completed_at := Some (clock d),
                                      task_updated_at := clock d\<rparr>
                             else row) (tasks d) \<and>
               (\<exists>u1 u2. progress_updates (snd (monitorProgress U taskId d)) =
                            progress_updates d @ [u1, u2] \<and>
                          update_task_id u1 = taskId \<and> progress_percentage u1 = Some 100 \<and>
                          update_task_id u2 = taskId \<and> progress_percentage u2 = Some 100 \<and>
                          message u2 =
                            ''Task completed successfully! All work packages finished.'' \<and>
                          update_created_at u2 = clock d) \<and>
               (\<forall>ts. ts \<noteq> [] \<longrightarrow>
                  fst (monitor_calls U taskId ts d) =
                    replicate (length ts)
                      (Inr \<lparr>pr_completed = length mine, pr_total = length mine,
                            pr_progress = 100\<rparr>) \<and>
                  (\<forall>row \<in> set (tasks (snd (monitor_calls U taskId ts d))).
                     task_pk row = taskId \<longrightarrow> task_status row = TaskCompleted))
          else tasks (snd (monitorProgress U taskId d)) = tasks d \<and>
               (\<exists>u1. progress_updates (snd (monitorProgress U taskId d)) =
                         progress_updates d @ [u1] \<and>
                       update_task_id u1 = taskId))"
proof -
  have tot: "total_of taskId d = length mine"
    unfolding mine_def by (rule counts_raw(1) [OF agents])
  have com: "completed_of taskId d = length finished"
    unfolding finished_def mine_def by (rule counts_raw(2) [OF agents])
  have rep: "report_of taskId d =
               \<lparr>pr_completed = length finished, pr_total = length mine,
                pr_progress = (if mine = [] then 0
                               else round_percent (length finished) (length mine))\<rparr>"
    by (simp add: report_of_def tot com)
  have cond: "(completed_of taskId d = total_of taskId d \<and> 0 < total_of taskId d) =
              (mine \<noteq> [] \<and> (\<forall>a\<in>set mine. asg_status a = AsgCompleted))"
    unfolding tot com finished_def all_filtered by auto
  have nr: "list_all2 (\<lambda>row row'. task_pk row' = task_pk row \<and>
                      (task_status row = TaskCompleted \<longrightarrow> task_status row' = TaskCompleted))
           (tasks d) (tasks (snd (monitorProgress U taskId d)))"
    by (rule monitorProgress_no_regress [OF stored])
  show ?thesis
  proof (cases "mine \<noteq> [] \<and> (\<forall>a\<in>set mine. asg_status a = AsgCompleted)")
    case True
    then have c: "completed_of taskId d = total_of taskId d \<and> 0 < total_of taskId d"
      using cond by simp
    have c1: "completed_of taskId d = total_of taskId d" and c2: "0 < total_of taskId d"
      using c by simp_all
    have fl: "length finished = length mine" using c1 tot com by simp
    have run: "fst (monitorProgress U taskId d) = Inr (report_of taskId d)"
      by (simp add: monitorProgress_all [OF stored c])
    have a: "fst (monitorProgress U taskId d) =
           Inr \<lparr>pr_completed = length finished, pr_total = length mine,
                pr_progress = (if mine = [] then 0
                               else round_percent (length finished) (length mine))\<rparr>"
      unfolding run rep ..
    have hundred: "report_of taskId d =
                     \<lparr>pr_completed = length mine, pr_total = length mine, pr_progress = 100\<rparr>"
      using c2 by (simp add: rep fl tot round_percent_all)
    have b: "fst (monitorProgress U taskId d) =
               Inr \<lparr>pr_completed = length mine, pr_total = length mine, pr_progress = 100\<rparr>"
      unfolding run hundred ..
    have tk: "tasks (snd (monitorProgress U taskId d)) =
                 map (\<lambda>row. if task_pk row = taskId
                             then row\<lparr>task_status := TaskCompleted,
                                      task_completed_at := Some (clock d),
                                      task_updated_at := clock d\<rparr>
                             else row) (tasks d)"
      by (simp add: monitorProgress_all [OF stored c] update_task_def finalized_def)
    note up = monitorProgress_all_updates [OF stored c, of U]
    have idem: "\<forall>ts. ts \<noteq> [] \<longrightarrow>
                  fst (monitor_calls U taskId ts d) =
                    replicate (length ts)
                      (Inr \<lparr>pr_completed = length mine, pr_total = length mine,
                            pr_progress = 100\<rparr>) \<and>
                  (\<forall>row \<in> set (tasks (snd (monitor_calls U taskId ts d))).
                     task_pk row = taskId \<longrightarrow> task_status row = TaskCompleted)"
    proof (intro allI impI)
      fix ts :: "nat list"
      assume ne: "ts \<noteq> []"
      from monitor_calls_idempotent [OF stored c1 c2 ne, of U] obtain d'' where
        m: "monitor_calls U taskId ts d =
           (replicate (length ts)
              (Inr \<lparr>pr_completed = total_of taskId d, pr_total = total_of taskId d,
                    pr_progress = 100\<rparr>), d'')"
        and r: "\<forall>row \<in> set (tasks d''). task_pk row = taskId \<longrightarrow> task_status row = TaskCompleted"
        by blast
      show "fst (monitor_calls U taskId ts d) =
                    replicate (length ts)
                      (Inr \<lparr>pr_completed = length mine, pr_total = length mine,
                            pr_progress = 100\<rparr>) \<and>
                  (\<forall>row \<in> set (tasks (snd (monitor_calls U taskId ts d))).
                     task_pk row = taskId \<longrightarrow> task_status row = TaskCompleted)"
        unfolding m fst_conv snd_conv tot using r by (intro conjI refl)
    qed
    show ?thesis
      unfolding if_P [OF True]
      by (rule conjI [OF a conjI [OF nr conjI [OF b conjI [OF tk conjI [OF up idem]]]]])
  next
    case False
    then have c: "\<not> (completed_of taskId d = total_of taskId d \<and> 0 < total_of taskId d)"
      using cond by simp
    have a: "fst (monitorProgress U taskId d) =
           Inr \<lparr>pr_completed = length finished, pr_total = length mine,
                pr_progress = (if mine = [] then 0
                               else round_percent (length finished) (length mine))\<rparr>"
      by (simp add: monitorProgress_not_all [OF stored c] rep)
    from monitorProgress_not_all_ex [OF stored c, of U] obtain d' u1 where
      run: "monitorProgress U taskId d = (Inr (report_of taskId d), d')"
      and tk: "tasks d' = tasks d"
      and pu: "progress_updates d' = progress_updates d @ [u1]"
      and u1: "update_task_id u1 = taskId"
      by blast
    have e1: "tasks (snd (monitorProgress U taskId d)) = tasks d"
      by (simp only: run snd_conv tk)
    have e2: "\<exists>u1. progress_updates (snd (monitorProgress U taskId d)) =
                 progress_updates d @ [u1] \<and> update_task_id u1 = taskId"
      unfolding run snd_conv using pu u1 by (intro exI conjI)
    show ?thesis
      unfolding if_not_P [OF False]
      by (rule conjI [OF a conjI [OF nr conjI [OF e1 e2]]])
  qed
qed

lemma finished_store_stored: "1 \<in> task_pk ` set (tasks finished_store)"
  by (simp add: finished_store_def pending_store_def)

lemma finished_store_agents:
  "\<forall>a\<in>set (task_assignments finished_store).
     length (filter (\<lambda>s. agent_pk s = asg_agent_id a) (sub_ai_agents finished_store)) = 1"
  by (simp add: finished_store_def pending_store_def demo_assignment_def)

lemma finished_store_all_completed:
  "filter (\<lambda>a. asg_task_id a = 1) (task_assignments finished_store) \<noteq> [] \<and>
   (\<forall>a\<in>set (filter (\<lambda>a. asg_task_id a = 1) (task_assignments finished_store)).
      asg_status a = AsgCompleted)"
  by (simp add: finished_store_def pending_store_def demo_assignment_def)

lemma finished_store_mine:
  "length (filter (\<lambda>a. asg_task_id a = 1) (task_assignments finished_store)) = 1"
  by (simp add: finished_store_def pending_store_def demo_assignment_def)

theorem monitorProgress_finalizes_when_all_completed_witness:
  "1 \<in> task_pk ` set (tasks finished_store) \<and>
   map asg_status (task_assignments finished_store) = [AsgCompleted] \<and>
   fst (monitorProgress show_nat 1 finished_store) =
     Inr \<lparr>pr_completed = 1, pr_total = 1, pr_progress = 100\<rparr> \<and>
   map task_status (tasks (snd (monitorProgress show_nat 1 finished_store))) = [TaskCompleted] \<and>
   map task_completed_at (tasks (snd (monitorProgress show_nat 1 finished_store))) = [Some 8] \<and>
   fst (monitor_calls show_nat 1 [20, 30] finished_store) =
     [Inr \<lparr>pr_completed = 1, pr_total = 1, pr_progress = 100\<rparr>,
      Inr \<lparr>pr_completed = 1, pr_total = 1, pr_progress = 100\<rparr>]"
proof -
  note T = monitorProgress_finalizes_when_all_completed
             [OF finished_store_stored finished_store_agents, of show_nat,
              unfolded if_P [OF finished_store_all_completed] finished_store_mine]
  have st: "map asg_status (task_assignments finished_store) = [AsgCompleted]"
    by (simp add: finished_store_def pending_store_def demo_assignment_def)
  have a: "fst (monitorProgress show_nat 1 finished_store) =
             Inr \<lparr>pr_completed = 1, pr_total = 1, pr_progress = 100\<rparr>"
    by (rule T [THEN conjunct2, THEN conjunct2, THEN conjunct1])
  have tk: "tasks (snd (monitorProgress show_nat 1 finished_store)) =
                 map (\<lambda>row. if task_pk row = 1
                             then row\<lparr>task_status := TaskCompleted,
                                      task_completed_at := Some (clock finished_store),
                                      task_updated_at := clock finished_store\<rparr>
                             else row) (tasks finished_store)"
    by (rule T [THEN conjunct2, THEN conjunct2, THEN conjunct2, THEN conjunct1])
  have t1: "map task_status (tasks (snd (monitorProgress show_nat 1 finished_store))) =
              [TaskCompleted]"
    unfolding tk by (simp add: finished_store_def pending_store_def)
  have t2: "map task_completed_at (tasks (snd (monitorProgress show_nat 1 finished_store))) =
              [Some 8]"
    unfolding tk by (simp add: finished_store_def pending_store_def)
  have "\<forall>ts. ts \<noteq> [] \<longrightarrow>
                  fst (monitor_calls show_nat 1 ts finished_store) =
                    replicate (length ts)
                      (Inr \<lparr>pr_completed = 1, pr_total = 1, pr_progress = 100\<rparr>) \<and>
                  (\<forall>row \<in> set (tasks (snd (monitor_calls show_nat 1 ts finished_store))).
                     task_pk row = 1 \<longrightarrow> task_status row = TaskCompleted)"
    by (rule T [THEN conjunct2, THEN conjunct2, THEN conjunct2, THEN conjunct2, THEN conjunct2])
  then have "[20, 30 :: nat] \<noteq> [] \<longrightarrow>
                  fst (monitor_calls show_nat 1 [20, 30] finished_store) =
                    replicate (length [20, 30 :: nat])
                      (Inr \<lparr>pr_completed = 1, pr_total = 1, pr_progress = 100\<rparr>) \<and>
                  (\<forall>row \<in> set (tasks (snd (monitor_calls show_nat 1 [20, 30] finished_store))).
                     task_pk row = 1 \<longrightarrow> task_status row = TaskCompleted)"
    by (rule spec)
  then have two: "fst (monitor_calls show_nat 1 [20, 30] finished_store) =
     [Inr \<lparr>pr_completed = 1, pr_total = 1, pr_progress = 100\<rparr>,
      Inr \<lparr>pr_completed = 1, pr_total = 1, pr_progress = 100\<rparr>]"
    by (simp add: numeral_2_eq_2)
  show ?thesis
    by (intro conjI finished_store_stored st a t1 t2 two)
qed

section \<open>Properties of the agent coordinator\<close>

text \<open>
  Claim C7. When the collaborator's call for the decomposition fails, \<open>createWorkBots\<close>
  on the fallback analysis creates \<open>min 5 (length assignedElements)\<close> work bots, one per
  element in order, each of type \<open>'general'\<close> and with the element as its description
  (both in the returned list and in the rows written); this for every store that has the
  agent's row and the assignment's row. And for every analysis, fallback or not, at
  most five rows are written; when the call succeeds on a task list \<open>ts\<close>, exactly
  \<open>min 5 (length ts)\<close> bots are made, the other tasks being dropped.
\<close>

theorem createWorkBots_fallback_and_cap:
  assumes "get_agent (sa_agentId ag) d = Some s"
    and "asg_pk a \<in> asg_pk ` set (task_assignments d)"
  shows "(\<exists>bots rows d'.
           createWorkBots U ag a (analyzeAssignment (CallFailed m) a) d = (Inr bots, d') \<and>
           length bots = min 5 (length (assigned_elements a)) \<and>
           map wb_type bots = replicate (min 5 (length (assigned_elements a))) (Val ''general'') \<and>
           map wb_description bots = map Val (take 5 (assigned_elements a)) \<and>
           work_bots d' = work_bots d @ rows \<and>
           length rows = min 5 (length (assigned_elements a)) \<and>
           map bot_type rows = replicate (min 5 (length (assigned_elements a))) ''general'' \<and>
           map task_description rows = map Some (take 5 (assigned_elements a)) \<and>
           list_all (\<lambda>r. bot_status r = BotCreated \<and> bot_assignment_id r = asg_pk a) rows) \<and>
         (\<exists>rows. work_bots (snd (createWorkBots U ag a an d)) = work_bots d @ rows \<and>
            length rows \<le> 5 \<and>
            (\<forall>bots ts. fst (createWorkBots U ag a an d) = Inr bots \<longrightarrow> an_tasks an = Val ts \<longrightarrow>
                       length bots = min 5 (length ts) \<and> length rows = min 5 (length ts)))"
  by (rule conjI [OF createWorkBots_fallback [OF assms] createWorkBots_cap])

lemma wide_store_agent:
  "get_agent (sa_agentId code_architect) wide_store =
     Some \<lparr>agent_pk = 1, agent_id = ''sub-ai-code'', agent_name = ''Code Architect'',
           agent_specialization = ''Code Development'',
           agent_expertise_areas = [''JavaScript''], agent_status = ''active'',
           current_load = 1, max_capacity = 10\<rparr>"
  by code_simp

lemma wide_store_assignment:
  "asg_pk wide_assignment \<in> asg_pk ` set (task_assignments wide_store)"
  by (simp add: wide_store_def)

lemma wide_assignment_elements:
  "assigned_elements wide_assignment = [''e1'', ''e2'', ''e3'', ''e4'', ''e5'', ''e6'', ''e7'']"
  by (simp add: wide_assignment_def)

theorem createWorkBots_fallback_and_cap_witness:
  "get_agent (sa_agentId code_architect) wide_store =
     Some \<lparr>agent_pk = 1, agent_id = ''sub-ai-code'', agent_name = ''Code Architect'',
           agent_specialization = ''Code Development'',
           agent_expertise_areas = [''JavaScript''], agent_status = ''active'',
           current_load = 1, max_capacity = 10\<rparr> \<and>
   asg_pk wide_assignment \<in> asg_pk ` set (task_assignments wide_store) \<and>
   (\<exists>bots rows d'.
      createWorkBots show_nat code_architect wide_assignment
        (analyzeAssignment (CallFailed ''down'') wide_assignment) wide_store = (Inr bots, d') \<and>
      length bots = 5 \<and>
      map wb_type bots =
        [Val ''general'', Val ''general'', Val ''general'', Val ''general'', Val ''general''] \<and>
      map wb_description bots = [Val ''e1'', Val ''e2'', Val ''e3'', Val ''e4'', Val ''e5''] \<and>
      work_bots d' = work_bots wide_store @ rows \<and>
      map task_description rows = [Some ''e1'', Some ''e2'', Some ''e3'', Some ''e4'', Some ''e5''])"
proof -
  note T = createWorkBots_fallback_and_cap
             [OF wide_store_agent wide_store_assignment, of show_nat "''down''", THEN conjunct1,
              unfolded wide_assignment_elements]
  from T obtain bots rows d' where
    "createWorkBots show_nat code_architect wide_assignment
        (analyzeAssignment (CallFailed ''down'') wide_assignment) wide_store = (Inr bots, d')"
    "length bots = min 5 (length [''e1'', ''e2'', ''e3'', ''e4'', ''e5'', ''e6'', ''e7''])"
    "map wb_type bots =
       replicate (min 5 (length [''e1'', ''e2'', ''e3'', ''e4'', ''e5'', ''e6'', ''e7'']))
         (Val ''general'')"
    "map wb_description bots = map Val (take 5 [''e1'', ''e2'', ''e3'', ''e4'', ''e5'', ''e6'', ''e7''])"
    "work_bots d' = work_bots wide_store @ rows"
    "map task_description rows =
       map Some (take 5 [''e1'', ''e2'', ''e3'', ''e4'', ''e5'', ''e6'', ''e7''])"
    by blast
  then have "\<exists>bots rows d'.
      createWorkBots show_nat code_architect wide_assignment
        (analyzeAssignment (CallFailed ''down'') wide_assignment) wide_store = (Inr bots, d') \<and>
      length bots = 5 \<and>
      map wb_type bots =
        [Val ''general'', Val ''general'', Val ''general'', Val ''general'', Val ''general''] \<and>
      map wb_description bots = [Val ''e1'', Val ''e2'', Val ''e3'', Val ''e4'', Val ''e5''] \<and>
      work_bots d' = work_bots wide_store @ rows \<and>
      map task_description rows = [Some ''e1'', Some ''e2'', Some ''e3'', Some ''e4'', Some ''e5'']"
    by simp
  then show ?thesis
    using wide_store_agent wide_store_assignment by (intro conjI)
qed

section \<open>Departures of the agent coordinator from the specification\<close>

lemma migrated_store_facts:
  "asg_has_updated_at migrated_store"
  "asg_pk demo_assignment \<in> asg_pk ` set (task_assignments migrated_store)"
  "asg_task_id demo_assignment \<in> task_pk ` set (tasks migrated_store)"
  "map current_load (sub_ai_agents migrated_store) = [1]"
  by (simp_all add: migrated_store_def pending_store_def demo_assignment_def)

lemma four_store_facts:
  "asg_has_updated_at four_store"
  "asg_pk four_assignment \<in> asg_pk ` set (task_assignments four_store)"
  "asg_task_id four_assignment \<in> task_pk ` set (tasks four_store)"
  "map current_load (sub_ai_agents four_store) = [1]"
  "work_bots four_store = []"
  by (simp_all add: four_store_def pending_store_def four_assignment_def demo_assignment_def)

text \<open>
  Claim C1. The specification has the agent's load decremented exactly once when the
  processing of an assignment reaches a terminal outcome, also when an exception marks
  the assignment \<open>'failed'\<close>. The code decrements the load in \<open>reportToAtlantis\<close> only;
  the handler of \<open>processAssignment\<close> calls \<open>updateAssignmentStatus(assignment.id,
  'failed')\<close> and nothing else. On a database that has the column \<open>updated_at\<close>, a
  decomposition reply without \<open>tasks\<close> makes \<open>createWorkBots\<close> throw: the call resolves
  to \<open>{success: false, error}\<close>, the assignment is \<open>'failed'\<close> and the load is still 1.
  The same happens when the decomposition falls back and the bot runs, because the
  count query of \<open>executeWorkBots\<close> throws. On the schema of
  \<open>scripts/init-database.js\<close>, which has no such column, \<open>processAssignment\<close> rejects
  before anything is written.
\<close>

theorem processAssignment_failure_keeps_load:
  "processAssignment show_nat code_architect demo_assignment (CallFailed ''down'')
     every_call_fails pending_store =
     (Inl (SqliteError ''no such column: updated_at''), pending_store) \<and>
   map current_load (sub_ai_agents migrated_store) = [1] \<and>
   fst (processAssignment show_nat code_architect demo_assignment (Returned no_tasks)
          every_call_fails migrated_store) =
     Inr (ProcFailure (cannot_read ''undefined'' ''slice'')) \<and>
   map asg_status
     (task_assignments
        (snd (processAssignment show_nat code_architect demo_assignment (Returned no_tasks)
                every_call_fails migrated_store))) = [AsgFailed] \<and>
   map current_load
     (sub_ai_agents
        (snd (processAssignment show_nat code_architect demo_assignment (Returned no_tasks)
                every_call_fails migrated_store))) = [1] \<and>
   fst (processAssignment show_nat code_architect demo_assignment (CallFailed ''down'')
          every_call_fails migrated_store) = Inr (ProcFailure count_query_error) \<and>
   map asg_status
     (task_assignments
        (snd (processAssignment show_nat code_architect demo_assignment (CallFailed ''down'')
                every_call_fails migrated_store))) = [AsgFailed] \<and>
   map current_load
     (sub_ai_agents
        (snd (processAssignment show_nat code_architect demo_assignment (CallFailed ''down'')
                every_call_fails migrated_store))) = [1]"
proof -
  have nc: "\<not> asg_has_updated_at pending_store" by (simp add: pending_store_def)
  have nt: "an_tasks no_tasks = Undefined" by (simp add: no_tasks_def)
  have c1: "processAssignment show_nat code_architect demo_assignment (CallFailed ''down'')
              every_call_fails pending_store =
            (Inl (SqliteError ''no such column: updated_at''), pending_store)"
    by (rule processAssignment_shipped_schema [OF nc])
  note F = processAssignment_no_tasks [OF migrated_store_facts(1) nt, of show_nat code_architect
             demo_assignment every_call_fails]
  have c4: "map asg_status
     (task_assignments
        (snd (processAssignment show_nat code_architect demo_assignment (Returned no_tasks)
                every_call_fails migrated_store))) = [AsgFailed]"
    unfolding F(3) by (simp add: migrated_store_def pending_store_def)
  have c5: "map current_load
     (sub_ai_agents
        (snd (processAssignment show_nat code_architect demo_assignment (Returned no_tasks)
                every_call_fails migrated_store))) = [1]"
    unfolding F(2) by (rule migrated_store_facts(4))
  from processAssignment_fallback
         [OF migrated_store_facts(1) migrated_store_agent migrated_store_facts(2,3),
          of show_nat "''down''" every_call_fails]
  obtain old rows d' where
    p: "processAssignment show_nat code_architect demo_assignment (CallFailed ''down'')
          every_call_fails migrated_store = (Inr (ProcFailure count_query_error), d')"
    and ta: "task_assignments d' =
               map (\<lambda>r. if asg_pk r = asg_pk demo_assignment
                         then r\<lparr>asg_started_at := Some (clock migrated_store),
                                asg_status := AsgFailed,
                                asg_updated_at := Some (clock migrated_store)\<rparr>
                         else r) (task_assignments migrated_store)"
    and s: "sub_ai_agents d' = sub_ai_agents migrated_store"
    by blast
  have c6: "fst (processAssignment show_nat code_architect demo_assignment (CallFailed ''down'')
                  every_call_fails migrated_store) = Inr (ProcFailure count_query_error)"
    unfolding p by simp
  have c7: "map asg_status
     (task_assignments
        (snd (processAssignment show_nat code_architect demo_assignment (CallFailed ''down'')
                every_call_fails migrated_store))) = [AsgFailed]"
    unfolding p snd_conv ta by (simp add: migrated_store_def pending_store_def)
  have c8: "map current_load
     (sub_ai_agents
        (snd (processAssignment show_nat code_architect demo_assignment (CallFailed ''down'')
                every_call_fails migrated_store))) = [1]"
    unfolding p snd_conv s by (rule migrated_store_facts(4))
  show ?thesis
    by (intro conjI c1 migrated_store_facts(4) F(1) c4 c5 c6 c7 c8)
qed

text \<open>
  Claim C2. The specification counts as completed the bots whose execution succeeded:
  of four bots of which three succeed, the assignment is to end \<open>'partial'\<close> with
  progress 75. In the code, with four elements and the executor's third call failing,
  \<open>executeWorkBot\<close> catches the failure and returns \<open>{success: false, error}\<close>, the loop
  marks all four bots \<open>'completed'\<close>, and the count query behind the loop throws: the
  call resolves to \<open>{success: false, error}\<close>, the assignment is \<open>'failed'\<close>, its progress
  is still 0 and the load still 1.
\<close>

theorem four_bots_one_failure_failed:
  "third_call_fails 2 = CallFailed ''timeout'' \<and>
   fst (processAssignment show_nat code_architect four_assignment (CallFailed ''down'')
          third_call_fails four_store) = Inr (ProcFailure count_query_error) \<and>
   map bot_status
     (work_bots
        (snd (processAssignment show_nat code_architect four_assignment (CallFailed ''down'')
                third_call_fails four_store))) =
     [BotCompleted, BotCompleted, BotCompleted, BotCompleted] \<and>
   map asg_status
     (task_assignments
        (snd (processAssignment show_nat code_architect four_assignment (CallFailed ''down'')
                third_call_fails four_store))) = [AsgFailed] \<and>
   map asg_progress
     (task_assignments
        (snd (processAssignment show_nat code_architect four_assignment (CallFailed ''down'')
                third_call_fails four_store))) = [0] \<and>
   map current_load
     (sub_ai_agents
        (snd (processAssignment show_nat code_architect four_assignment (CallFailed ''down'')
                third_call_fails four_store))) = [1]"
proof -
  have n: "min 5 (length (assigned_elements four_assignment)) = 4"
    by (simp add: four_assignment_def)
  from processAssignment_fallback
         [OF four_store_facts(1) four_store_agent four_store_facts(2,3),
          of show_nat "''down''" third_call_fails, unfolded n]
  obtain old rows d' where
    p: "processAssignment show_nat code_architect four_assignment (CallFailed ''down'')
          third_call_fails four_store = (Inr (ProcFailure count_query_error), d')"
    and w: "work_bots d' = old @ rows"
    and lo: "length old = length (work_bots four_store)"
    and lr: "length rows = 4"
    and st: "list_all (\<lambda>r. bot_assignment_id r = asg_pk four_assignment \<and>
                            bot_status r = BotCompleted) rows"
    and ta: "task_assignments d' =
               map (\<lambda>r. if asg_pk r = asg_pk four_assignment
                         then r\<lparr>asg_started_at := Some (clock four_store),
                                asg_status := AsgFailed,
                                asg_updated_at := Some (clock four_store)\<rparr>
                         else r) (task_assignments four_store)"
    and s: "sub_ai_agents d' = sub_ai_agents four_store"
    by blast
  have o: "old = []" using lo by (simp add: four_store_facts(5))
  have st': "list_all (\<lambda>r. bot_status r = BotCompleted) rows"
    using st by (simp add: list_all_iff)
  have c0: "third_call_fails 2 = CallFailed ''timeout''" by (simp add: third_call_fails_def)
  have c1: "fst (processAssignment show_nat code_architect four_assignment (CallFailed ''down'')
                  third_call_fails four_store) = Inr (ProcFailure count_query_error)"
    unfolding p by simp
  have c3: "map bot_status
     (work_bots
        (snd (processAssignment show_nat code_architect four_assignment (CallFailed ''down'')
                third_call_fails four_store))) =
     [BotCompleted, BotCompleted, BotCompleted, BotCompleted]"
    unfolding p snd_conv w o append_Nil map_const_replicate [OF st'] lr
    by (simp add: numeral_eq_Suc)
  have c4: "map asg_status
     (task_assignments
        (snd (processAssignment show_nat code_architect four_assignment (CallFailed ''down'')
                third_call_fails four_store))) = [AsgFailed]"
    unfolding p snd_conv ta by (simp add: four_store_def)
  have c5: "map asg_progress
     (task_assignments
        (snd (processAssignment show_nat code_architect four_assignment (CallFailed ''down'')
                third_call_fails four_store))) = [0]"
    unfolding p snd_conv ta by (simp add: four_store_def four_assignment_def demo_assignment_def)
  have c6: "map current_load
     (sub_ai_agents
        (snd (processAssignment show_nat code_architect four_assignment (CallFailed ''down'')
                third_call_fails four_store))) = [1]"
    unfolding p snd_conv s by (rule four_store_facts(4))
  show ?thesis
    by (intro conjI c0 c1 c3 c4 c5 c6)
qed

text \<open>
  Claim C9. The claim reads the code's statements: with an empty task list,
  \<open>executeWorkBots\<close> would divide the count of completed bots by zero bots, and
  \<open>reportToAtlantis\<close> would find \<open>0 = 0\<close> and mark the assignment \<open>'completed'\<close>. The code
  gets to neither. With a decomposition whose \<open>tasks\<close> is empty, no bot is created, the
  count query before the division throws, and the handler of \<open>processAssignment\<close> marks
  the assignment \<open>'failed'\<close>; its progress stays 0 and the load stays 1.
\<close>

theorem no_bots_assignment_failed:
  "an_tasks empty_tasks = Val [] \<and>
   fst (processAssignment show_nat code_architect demo_assignment (Returned empty_tasks)
          every_call_fails migrated_store) = Inr (ProcFailure count_query_error) \<and>
   work_bots
     (snd (processAssignment show_nat code_architect demo_assignment (Returned empty_tasks)
             every_call_fails migrated_store)) = [] \<and>
   map asg_status
     (task_assignments
        (snd (processAssignment show_nat code_architect demo_assignment (Returned empty_tasks)
                every_call_fails migrated_store))) = [AsgFailed] \<and>
   map asg_progress
     (task_assignments
        (snd (processAssignment show_nat code_architect demo_assignment (Returned empty_tasks)
                every_call_fails migrated_store))) = [0] \<and>
   map current_load
     (sub_ai_agents
        (snd (processAssignment show_nat code_architect demo_assignment (Returned empty_tasks)
                every_call_fails migrated_store))) = [1]"
proof -
  have e: "an_tasks empty_tasks = Val []" by (simp add: empty_tasks_def)
  note F = processAssignment_no_bots [OF migrated_store_facts(1) e, of show_nat code_architect
             demo_assignment every_call_fails]
  have c2: "work_bots
     (snd (processAssignment show_nat code_architect demo_assignment (Returned empty_tasks)
             every_call_fails migrated_store)) = []"
    unfolding F(2) by (simp add: migrated_store_def pending_store_def)
  have c3: "map asg_status
     (task_assignments
        (snd (processAssignment show_nat code_architect demo_assignment (Returned empty_tasks)
                every_call_fails migrated_store))) = [AsgFailed]"
    unfolding F(3) by (simp add: migrated_store_def pending_store_def)
  have c4: "map asg_progress
     (task_assignments
        (snd (processAssignment show_nat code_architect demo_assignment (Returned empty_tasks)
                every_call_fails migrated_store))) = [0]"
    unfolding F(3) by (simp add: migrated_store_def pending_store_def demo_assignment_def)
  have c5: "map current_load
     (sub_ai_agents
        (snd (processAssignment show_nat code_architect demo_assignment (Returned empty_tasks)
                every_call_fails migrated_store))) = [1]"
    unfolding processAssignment_keeps_loads by (rule migrated_store_facts(4))
  show ?thesis
    by (intro conjI e F(1) c2 c3 c4 c5)
qed

text \<open>
  Called on its own, \<open>reportToAtlantis\<close> does what the claim says of it: for an
  assignment without bot rows it finds \<open>0 = 0\<close> and writes \<open>'completed'\<close>.
\<close>

lemma reportToAtlantis_without_bots:
  assumes "\<forall>r\<in>set (work_bots d). bot_assignment_id r \<noteq> asg_pk a"
  shows "task_assignments (snd (reportToAtlantis U ag a d)) =
           map (\<lambda>r. if asg_pk r = asg_pk a
                     then r\<lparr>asg_status := AsgCompleted, asg_completed_at := Some (clock d)\<rparr>
                     else r)
             (task_assignments d)"
proof -
  have f: "filter (\<lambda>r. bot_assignment_id r = asg_pk a) (work_bots d) = []"
    using assms by (simp add: filter_empty_conv)
  show ?thesis
    unfolding reportToAtlantis_assignments f by (simp add: update_assignment_def)
qed

text \<open>
  Claim C10. The specification has a bot whose execution fails recorded with status
  \<open>'failed'\<close> and result \<open>{success: false, error}\<close>, and an assignment whose bots all fail
  end \<open>'partial'\<close>, never \<open>'failed'\<close>. In the code, for an assignment of one element whose
  only bot's call fails, the bot's row is \<open>'completed'\<close> with result
  \<open>{success: false, error}\<close>, the count query behind the loop throws, and the assignment
  ends \<open>'failed'\<close> with progress 0.
\<close>

theorem failed_bot_recorded_completed:
  "(case processAssignment show_nat code_architect demo_assignment (CallFailed ''down'')
           every_call_fails migrated_store of
      (res, d) \<Rightarrow>
        res = Inr (ProcFailure count_query_error) \<and>
        map bot_status (work_bots d) = [BotCompleted] \<and>
        map bot_result (work_bots d) = [Some (ResFailure ''timeout'')] \<and>
        map asg_status (task_assignments d) = [AsgFailed] \<and>
        map asg_progress (task_assignments d) = [0])"
  by code_simp

text \<open>
  A row becomes \<open>'failed'\<close> only in the handler of the loop, when a statement of the
  loop body throws; its result is then \<open>{error}\<close>. Here
  \<open>bot.description.substring\<close> throws on \<open>null\<close>.
\<close>

lemma handler_marks_bot_failed:
  "(case processAssignment show_nat code_architect demo_assignment (Returned null_description)
           every_call_fails migrated_store of
      (res, d) \<Rightarrow>
        res = Inr (ProcFailure count_query_error) \<and>
        map bot_status (work_bots d) = [BotFailed] \<and>
        map bot_result (work_bots d) =
          [Some (ResError (error_message (cannot_read ''null'' ''substring'')))] \<and>
        map asg_status (task_assignments d) = [AsgFailed] \<and>
        map asg_progress (task_assignments d) = [0])"
  by code_simp


end
